theory Spec2Isabelle
  imports Main "HOL-Library.AList"
begin

section \<open>Values and documents\<close>

text \<open>
  The values that reach the tool are the JavaScript values the driver hands back for a stored
  document. Strings are lists of characters, one \<^typ>\<open>char\<close> per code unit. The payload of
  a number is never inspected by the tool. An object is the list of its own enumerable
  properties in enumeration order; its keys are pairwise distinct.
\<close>

datatype jsvalue =
    JUndefined
  | JNull
  | JBoolean bool
  | JNumber int
  | JString string
  | JArray "jsvalue list"
  | JObject "(string \<times> jsvalue) list"

text \<open>\<open>Array.isArray(v)\<close> and \<open>typeof v\<close>; \<open>typeof null\<close> is \<open>"object"\<close>.\<close>

fun isArray :: "jsvalue \<Rightarrow> bool" where
  "isArray (JArray xs) = True"
| "isArray v = False"

fun typeof :: "jsvalue \<Rightarrow> string" where
  "typeof JUndefined = ''undefined''"
| "typeof JNull = ''object''"
| "typeof (JBoolean b) = ''boolean''"
| "typeof (JNumber n) = ''number''"
| "typeof (JString s) = ''string''"
| "typeof (JArray xs) = ''object''"
| "typeof (JObject kvs) = ''object''"

text \<open>Decimal rendering of an index, as property keys of arrays and strings have it.\<close>

definition digit :: "nat \<Rightarrow> char" where
  "digit n = ''0123456789'' ! n"

fun string_of_nat :: "nat \<Rightarrow> string" where
  "string_of_nat n =
     (if n < 10 then [digit n] else string_of_nat (n div 10) @ [digit (n mod 10)])"

declare string_of_nat.simps [simp del]

fun indexed :: "nat \<Rightarrow> 'a list \<Rightarrow> (string \<times> 'a) list" where
  "indexed i [] = []"
| "indexed i (x # xs) = (string_of_nat i, x) # indexed (Suc i) xs"

text \<open>
  The pairs \<open>(key, doc[key])\<close> that \<open>for (const key in doc) { const value = doc[key]; ... }\<close>
  visits, in order. An object yields its own properties, an array its indices, a string the
  indices of its characters (each read as a one-character string); \<open>null\<close>, \<open>undefined\<close>,
  numbers and booleans yield nothing.
\<close>

fun for_in :: "jsvalue \<Rightarrow> (string \<times> jsvalue) list" where
  "for_in (JObject kvs) = kvs"
| "for_in (JArray xs) = indexed 0 xs"
| "for_in (JString s) = indexed 0 (map (\<lambda>c. JString [c]) s)"
| "for_in v = []"

section \<open>Schema trees\<close>

text \<open>
  A \<open>FieldSchema\<close> node; \<open>subFields\<close> is \<open>None\<close> when the property is \<open>undefined\<close>.
\<close>

datatype field_schema =
  FieldSchema (name: string) (types: "string list") (subFields: "field_schema list option")

text \<open>
  A dictionary object (a \<open>FullSchema\<close>, a \<open>FlattenSchema\<close> and the map of one collection)
  is the list of its own entries in enumeration order, with pairwise distinct keys: the keys
  that are array indices (canonical decimal numerals below \<open>2^32 - 1\<close>) come first, in
  numeric order, then the other keys in insertion order.
\<close>

type_synonym 'a obj = "(string \<times> 'a) list"

definition is_digit :: "char \<Rightarrow> bool" where
  "is_digit c \<longleftrightarrow> c \<in> set ''0123456789''"

fun position :: "'a \<Rightarrow> 'a list \<Rightarrow> nat" where
  "position c [] = 0"
| "position c (d # ds) = (if c = d then 0 else Suc (position c ds))"

definition nat_of_digits :: "string \<Rightarrow> nat" where
  "nat_of_digits k = foldl (\<lambda>n c. 10 * n + position c ''0123456789'') 0 k"

definition is_array_index :: "string \<Rightarrow> bool" where
  "is_array_index k \<longleftrightarrow>
     k \<noteq> [] \<and> list_all is_digit k \<and> (k = ''0'' \<or> hd k \<noteq> CHR ''0'') \<and>
     nat_of_digits k < 4294967295"

text \<open>
  \<open>obj[k] = v\<close> on an object created as \<open>{}\<close>. The key \<open>__proto__\<close> is the accessor
  inherited from \<open>Object.prototype\<close>: assigning a string to it is ignored and assigning an
  object to it replaces the prototype, and neither creates an own property. A key that is
  present keeps its place and gets the new value; a new array index is put in its numeric
  place and any other new key at the end. The prototype of an object is not part of its
  value here.
\<close>

fun insert_index :: "string \<Rightarrow> 'a \<Rightarrow> 'a obj \<Rightarrow> 'a obj" where
  "insert_index k v [] = [(k, v)]"
| "insert_index k v (p # ps) =
     (if is_array_index (fst p) \<and> nat_of_digits (fst p) < nat_of_digits k
      then p # insert_index k v ps
      else (k, v) # p # ps)"

definition obj_set :: "'a obj \<Rightarrow> string \<Rightarrow> 'a \<Rightarrow> 'a obj" where
  "obj_set obj k v =
     (if k = ''__proto__'' then obj
      else if k \<in> set (map fst obj) then AList.update k v obj
      else if is_array_index k then insert_index k v obj
      else obj @ [(k, v)])"

type_synonym full_schema = "field_schema list obj"

type_synonym flatten_schema = "string obj obj"

section \<open>Type sampler and array-doc derivation\<close>

definition getFieldType :: "jsvalue \<Rightarrow> string" where
  "getFieldType v = (if isArray v then ''array'' else typeof v)"

text \<open>
  Truthiness of a value, and its indexed elements: \<open>value.length\<close> is the number of
  elements and \<open>value[0]\<close> the first one. Arrays and strings have them; an object is taken
  to have no \<open>length\<close> property of its own (\<open>getSubFields\<close> reads \<open>length\<close> only when
  \<open>fieldType\<close> is \<open>"array"\<close>, and its one caller passes the type of the value itself).
\<close>

fun truthy :: "jsvalue \<Rightarrow> bool" where
  "truthy JUndefined = False"
| "truthy JNull = False"
| "truthy (JBoolean b) = b"
| "truthy (JNumber n) = (n \<noteq> 0)"
| "truthy (JString s) = (s \<noteq> [])"
| "truthy (JArray xs) = True"
| "truthy (JObject kvs) = True"

fun elements :: "jsvalue \<Rightarrow> jsvalue list" where
  "elements (JArray xs) = xs"
| "elements (JString s) = map (\<lambda>c. JString [c]) s"
| "elements v = []"

text \<open>
  Weights for the termination argument of the mutual recursion below: a call of
  \<open>getSubFields\<close> is bounded by what it hands on to \<open>getSchemaFromArrayDocs\<close>.
\<close>

fun weight :: "jsvalue \<Rightarrow> nat" where
  "weight (JArray xs) = Suc (Suc (sum_list (map weight xs)))"
| "weight (JObject kvs) = Suc (Suc (sum_list (map (\<lambda>kv. weight (snd kv)) kvs)))"
| "weight v = Suc 0"

definition sub_weight :: "jsvalue \<Rightarrow> string \<Rightarrow> nat" where
  "sub_weight v fieldType =
     (if fieldType = ''array'' \<and> truthy v \<and> elements v \<noteq> [] then
        (if isArray (hd (elements v)) \<or> typeof (hd (elements v)) = ''object''
         then Suc (sum_list (map weight (elements v))) else 0)
      else if fieldType = ''object'' then Suc (weight v) else 0)"

lemma map_snd_indexed: "map snd (indexed i xs) = xs"
  by (induction xs arbitrary: i) simp_all

lemma weight_elem: "c \<in> set xs \<Longrightarrow> weight c \<le> sum_list (map weight xs)"
  by (induction xs) auto

lemma weight_indexed: "(k, c) \<in> set (indexed i xs) \<Longrightarrow> weight c \<le> sum_list (map weight xs)"
proof -
  assume "(k, c) \<in> set (indexed i xs)"
  then have "c \<in> set (map snd (indexed i xs))" by force
  then show ?thesis by (simp add: map_snd_indexed weight_elem)
qed

lemma weight_member: "(k, c) \<in> set kvs \<Longrightarrow> weight c \<le> sum_list (map (\<lambda>kv. weight (snd kv)) kvs)"
  by (induction kvs) auto

lemma sub_weight_le: "sub_weight c (getFieldType c) \<le> Suc (weight c)"
  by (cases c) (simp_all add: sub_weight_def getFieldType_def)

lemma weight_for_in: "(k, c) \<in> set (for_in d) \<Longrightarrow> sub_weight c (getFieldType c) < weight d"
proof (cases d)
  case (JString s)
  assume "(k, c) \<in> set (for_in d)"
  with JString have "c \<in> set (map snd (indexed 0 (map (\<lambda>c. JString [c]) s)))" by force
  then obtain ch where "c = JString [ch]"
    by (auto simp: map_snd_indexed)
  then show ?thesis by (simp add: sub_weight_def getFieldType_def JString)
next
  case (JArray xs)
  assume "(k, c) \<in> set (for_in d)"
  with JArray have "weight c \<le> sum_list (map weight xs)" by (auto dest: weight_indexed)
  with sub_weight_le [of c] show ?thesis by (simp add: JArray)
next
  case (JObject kvs)
  assume "(k, c) \<in> set (for_in d)"
  with JObject have "weight c \<le> sum_list (map (\<lambda>kv. weight (snd kv)) kvs)"
    by (auto dest: weight_member)
  with sub_weight_le [of c] show ?thesis by (simp add: JObject)
qed auto

lemma weight_docs:
  "doc \<in> set docs \<Longrightarrow> entry \<in> set (for_in doc) \<Longrightarrow>
     sub_weight (snd entry) (getFieldType (snd entry)) < sum_list (map weight docs)"
  using weight_for_in [of "fst entry" "snd entry" doc] weight_elem [of doc docs] by simp

text \<open>
  \<open>getSubFields\<close> and \<open>getSchemaFromArrayDocs\<close>. The depth is passed on and never compared
  with a limit. The loops push one field per visited key.
\<close>

function getSubFields :: "jsvalue \<Rightarrow> string \<Rightarrow> nat \<Rightarrow> field_schema list option"
  and getSchemaFromArrayDocs :: "jsvalue list \<Rightarrow> nat \<Rightarrow> field_schema list"
where
  "getSubFields value fieldType depth =
     (if fieldType = ''array'' \<and> truthy value \<and> elements value \<noteq> [] then
        (let firstElement = hd (elements value)
         in if isArray firstElement \<or> typeof firstElement = ''object''
            then Some (getSchemaFromArrayDocs (elements value) (depth + 1))
            else None)
      else if fieldType = ''object'' then Some (getSchemaFromArrayDocs [value] (depth + 1))
      else None)"
| "getSchemaFromArrayDocs arrayDocs depth =
     foldl (\<lambda>schema doc.
        foldl (\<lambda>schema entry.
           let key = fst entry;
               value = snd entry;
               fieldType = getFieldType value;
               sub = getSubFields value fieldType depth
           in schema @ [FieldSchema key [fieldType] sub])
         schema (for_in doc))
       [] arrayDocs"
  by pat_completeness auto
termination
  apply (relation "measure (\<lambda>x. case x of
          Inl (v, fieldType, depth) \<Rightarrow> sub_weight v fieldType
        | Inr (docs, depth) \<Rightarrow> sum_list (map weight docs))")
   apply (simp_all add: weight_docs del: weight.simps)
  apply (simp_all add: sub_weight_def)
  done

declare getSubFields.simps [simp del] getSchemaFromArrayDocs.simps [simp del]

section \<open>The document store\<close>

text \<open>
  The store is an injected collaborator; a call to it either rejects or resolves. The tool
  uses three of its operations: listing the collection names, the type aggregation of
  \<open>getSchema\<close> (one row per distinct top-level key, \<open>_id\<close>, with the set \<open>types\<close> of the
  type labels observed for it; a group has at least one member, so the set has a first label
  \<open>types[0]\<close>), and the projection of \<open>getSchemaFromSubDocs\<close> (the values \<open>subDoc\<close> of one
  field over all documents, kept where the store types them as \<open>"object"\<close>).
\<close>

datatype error = MongoError string | TypeError string

datatype type_row = TypeRow (row_id: string) (first_type: string) (more_types: "string list")

definition row_types :: "type_row \<Rightarrow> string list" where
  "row_types row = first_type row # more_types row"

record database =
  listCollections :: "error + string list"
  aggregateTypes :: "string \<Rightarrow> error + type_row list"
  aggregateSubDocs :: "string \<Rightarrow> string \<Rightarrow> error + jsvalue list"

section \<open>Schema inferrer\<close>

text \<open>
  The asynchronous methods run one store call at a time; a rejected call is the result
  \<open>Inl\<close> and ends the method, as the uncaught rejection does. \<open>getSchema_fields\<close> is the
  loop of \<open>getSchema\<close> over the rows of the aggregation and \<open>generate_collections\<close> the
  loop of \<open>generateSchemaForAllCollections\<close> over the listed names, each with the schema
  built so far. The log messages are not modelled.
\<close>

definition getSchemaFromSubDocs ::
  "database \<Rightarrow> string \<Rightarrow> string \<Rightarrow> nat \<Rightarrow> error + field_schema list" where
  "getSchemaFromSubDocs db collectionName field depth =
     (case aggregateSubDocs db collectionName field of
        Inl e \<Rightarrow> Inl e
      | Inr subDocs \<Rightarrow>
          Inr (foldl (\<lambda>schema subDoc. schema @ getSchemaFromArrayDocs [subDoc] depth)
                 [] subDocs))"

fun getSchema_fields ::
  "database \<Rightarrow> string \<Rightarrow> nat \<Rightarrow> type_row list \<Rightarrow> field_schema list \<Rightarrow> error + field_schema list"
where
  "getSchema_fields db collectionName depth [] schema = Inr schema"
| "getSchema_fields db collectionName depth (field # result) schema =
     (let fieldType =
            (if ''object'' \<in> set (row_types field) then ''object'' else first_type field)
      in if fieldType = ''object'' then
           (case getSchemaFromSubDocs db collectionName (row_id field) (depth + 1) of
              Inl e \<Rightarrow> Inl e
            | Inr sub \<Rightarrow>
                getSchema_fields db collectionName depth result
                  (schema @ [FieldSchema (row_id field) [fieldType] (Some sub)]))
         else
           getSchema_fields db collectionName depth result
             (schema @ [FieldSchema (row_id field) [fieldType] None]))"

definition getSchema :: "database \<Rightarrow> string \<Rightarrow> nat \<Rightarrow> error + field_schema list" where
  "getSchema db collectionName depth =
     (case aggregateTypes db collectionName of
        Inl e \<Rightarrow> Inl e
      | Inr result \<Rightarrow> getSchema_fields db collectionName depth result [])"

fun generate_collections ::
  "database \<Rightarrow> string list \<Rightarrow> full_schema \<Rightarrow> error + full_schema" where
  "generate_collections db [] schema = Inr schema"
| "generate_collections db (collectionName # collections) schema =
     (case getSchema db collectionName 0 of
        Inl e \<Rightarrow> Inl e
      | Inr flds \<Rightarrow>
          generate_collections db collections (obj_set schema collectionName flds))"

definition generateSchemaForAllCollections :: "database \<Rightarrow> error + full_schema" where
  "generateSchemaForAllCollections db =
     (case listCollections db of
        Inl e \<Rightarrow> Inl e
      | Inr collections \<Rightarrow> generate_collections db collections [])"

section \<open>Flattener\<close>

text \<open>\<open>s.includes(f)\<close>: \<open>f\<close> occurs in \<open>s\<close> as a contiguous substring (the empty string
  occurs in every string).\<close>

fun includes_str :: "string \<Rightarrow> string \<Rightarrow> bool" where
  "includes_str [] f = (f = [])"
| "includes_str (c # cs) f = (take (length f) (c # cs) = f \<or> includes_str cs f)"

text \<open>\<open>types.join()\<close>: the elements separated by commas.\<close>

fun join :: "string list \<Rightarrow> string" where
  "join [] = []"
| "join [t] = t"
| "join (t # u # ts) = t @ '','' @ join (u # ts)"

text \<open>\<open>Object.assign(target, source)\<close> on dictionaries: every property of the source is
  written to the target, in order.\<close>

definition object_assign :: "'a obj \<Rightarrow> 'a obj \<Rightarrow> 'a obj" where
  "object_assign target source = foldl (\<lambda>t entry. obj_set t (fst entry) (snd entry)) target source"

lemma size_subFields:
  "field \<in> set flds \<Longrightarrow> subFields field = Some sub \<Longrightarrow> size_list size sub < size_list size flds"
proof -
  assume mem: "field \<in> set flds" and sub: "subFields field = Some sub"
  from sub have "size_list size sub < size field" by (cases field) simp
  moreover from mem have "size field \<le> size_list size flds" by (induction flds) auto
  ultimately show ?thesis by simp
qed

text \<open>
  The inner function \<open>flattenFields\<close> of \<open>flattenSchema\<close>, with the list it reads from
  \<open>this.options.filteredFields\<close> as a parameter. An empty \<open>parentField\<close> is falsy, and
  \<open>subFields\<close> is truthy whenever it is defined, also when it is empty.
\<close>

function flattenFields :: "string list \<Rightarrow> field_schema list \<Rightarrow> string \<Rightarrow> string obj" where
  "flattenFields filters flds parentField =
     foldl (\<lambda>result field.
        let fieldName =
              (if parentField \<noteq> [] then parentField @ ''.'' @ name field else name field)
        in if \<not> list_ex (\<lambda>filteredField. includes_str fieldName filteredField) filters then
             (let result = obj_set result fieldName (join (types field))
              in case subFields field of
                   Some sub \<Rightarrow> object_assign result (flattenFields filters sub fieldName)
                 | None \<Rightarrow> result)
           else result)
       [] flds"
  by pat_completeness auto
termination
  by (relation "measure (\<lambda>(filters, flds, parentField). size_list size flds)")
     (auto simp: size_subFields)

declare flattenFields.simps [simp del]

section \<open>Options and connection\<close>

text \<open>
  An options object may lack a property, or own it with a value that may be \<open>undefined\<close>;
  reading a property that is absent gives \<open>undefined\<close> (\<open>None\<close>).
\<close>

datatype logger = Logger string

datatype 'a property = Absent | Own "'a option"

fun prop_get :: "'a property \<Rightarrow> 'a option" where
  "prop_get Absent = None"
| "prop_get (Own v) = v"

record options =
  filteredFields :: "string list property"
  logger :: "logger property"

text \<open>\<open>Object.assign(target, source)\<close> on options objects: the own properties of the source
  overwrite those of the target; an \<open>undefined\<close> source is skipped.\<close>

definition assign_options :: "options \<Rightarrow> options option \<Rightarrow> options" where
  "assign_options target source =
     (case source of
        None \<Rightarrow> target
      | Some src \<Rightarrow>
          \<lparr> filteredFields =
              (case filteredFields src of Absent \<Rightarrow> filteredFields target | Own v \<Rightarrow> Own v),
            logger = (case logger src of Absent \<Rightarrow> logger target | Own v \<Rightarrow> Own v) \<rparr>)"

text \<open>
  Options objects live in a heap. The static field \<open>defaultOptions\<close> of the class holds the
  address of one of them, and an instance holds the address of its options, not a copy.
\<close>

type_synonym addr = nat

type_synonym heap = "addr \<Rightarrow> options"

definition defaultOptions :: addr where
  "defaultOptions = 0"

definition initial_heap :: heap where
  "initial_heap =
     (\<lambda>a. \<lparr> filteredFields = Absent, logger = Absent \<rparr>)
       (defaultOptions :=
          \<lparr> filteredFields = Own (Some [''.buffer'', ''__v'']),
            logger = Own (Some (Logger ''winston'')) \<rparr>)"

record mongo_client =
  client_connect :: "error option"
  client_db :: "string \<Rightarrow> database"

record schema_extraction_tool =
  tool_database :: database
  tool_options :: addr

text \<open>
  \<open>connect\<close> returns the instance or the error of \<open>mongoClient.connect()\<close>, and the heap it
  leaves behind. \<open>Object.assign\<close> runs before the \<open>try\<close> block and returns its target, so
  \<open>instanceOptions\<close> is the default options object itself. The log messages are not modelled.
\<close>

definition connect ::
  "heap \<Rightarrow> mongo_client \<Rightarrow> string \<Rightarrow> options option \<Rightarrow> (error + schema_extraction_tool) \<times> heap"
where
  "connect h mongoClient databaseName opts =
     (let h' = h(defaultOptions := assign_options (h defaultOptions) opts);
          instanceOptions = defaultOptions
      in case client_connect mongoClient of
           Some e \<Rightarrow> (Inl e, h')
         | None \<Rightarrow>
             (Inr \<lparr> tool_database = client_db mongoClient databaseName,
                    tool_options = instanceOptions \<rparr>, h'))"

definition this_options :: "heap \<Rightarrow> schema_extraction_tool \<Rightarrow> options" where
  "this_options h tool = h (tool_options tool)"

text \<open>
  \<open>flattenSchema\<close> reads \<open>this.options.filteredFields!\<close> each time it visits a field; calling
  \<open>some\<close> on \<open>undefined\<close> throws a \<open>TypeError\<close>, which happens at the first field of
  the first collection that has one.
\<close>

definition flattenSchema :: "options \<Rightarrow> full_schema \<Rightarrow> error + flatten_schema" where
  "flattenSchema opts schema =
     (case prop_get (filteredFields opts) of
        None \<Rightarrow>
          if list_ex (\<lambda>entry. snd entry \<noteq> []) schema
          then Inl (TypeError ''Cannot read properties of undefined'')
          else Inr (foldl (\<lambda>flattenedSchema entry.
                      obj_set flattenedSchema (fst entry) []) [] schema)
      | Some filters \<Rightarrow>
          Inr (foldl (\<lambda>flattenedSchema entry.
                 obj_set flattenedSchema (fst entry) (flattenFields filters (snd entry) []))
                [] schema))"

section \<open>A reference store\<close>

text \<open>
  Modelled from the spec: the document store behind \<open>this.database\<close> is not part of the
  repository. This is the store contract of the specification (document store access, items
  a to c) computed in process over collections held as lists of documents: the type
  aggregation groups the top-level key/value pairs of all documents by key and accumulates
  the distinct type labels, and the sub-document projection keeps the values of one field
  that are typed \<open>"object"\<close>. Labels are the per-value classifications the specification's
  scenario uses. It serves as a concrete store in the examples; the theorems
  themselves hold for every store.
\<close>

fun store_type :: "jsvalue \<Rightarrow> string" where
  "store_type JUndefined = ''undefined''"
| "store_type JNull = ''null''"
| "store_type (JBoolean b) = ''boolean''"
| "store_type (JNumber n) = ''number''"
| "store_type (JString s) = ''string''"
| "store_type (JArray xs) = ''array''"
| "store_type (JObject kvs) = ''object''"

fun document_fields :: "jsvalue \<Rightarrow> (string \<times> jsvalue) list" where
  "document_fields (JObject kvs) = kvs"
| "document_fields v = []"

fun add_type :: "type_row list \<Rightarrow> string \<Rightarrow> string \<Rightarrow> type_row list" where
  "add_type [] k t = [TypeRow k t []]"
| "add_type (row # rows) k t =
     (if row_id row = k
      then (if t \<in> set (row_types row) then row
            else TypeRow k (first_type row) (more_types row @ [t])) # rows
      else row # add_type rows k t)"

definition store_aggregateTypes :: "jsvalue list \<Rightarrow> type_row list" where
  "store_aggregateTypes docs =
     foldl (\<lambda>rows doc.
        foldl (\<lambda>rows entry. add_type rows (fst entry) (store_type (snd entry)))
          rows (document_fields doc))
       [] docs"

definition store_aggregateSubDocs :: "jsvalue list \<Rightarrow> string \<Rightarrow> jsvalue list" where
  "store_aggregateSubDocs docs field =
     concat (map (\<lambda>doc.
        map snd (filter (\<lambda>entry. fst entry = field \<and> store_type (snd entry) = ''object'')
                   (document_fields doc))) docs)"

definition store_documents :: "(string \<times> jsvalue list) list \<Rightarrow> string \<Rightarrow> jsvalue list" where
  "store_documents colls c = (case map_of colls c of None \<Rightarrow> [] | Some docs \<Rightarrow> docs)"

definition memory_store :: "(string \<times> jsvalue list) list \<Rightarrow> database" where
  "memory_store colls =
     \<lparr> listCollections = Inr (map fst colls),
       aggregateTypes = (\<lambda>c. Inr (store_aggregateTypes (store_documents colls c))),
       aggregateSubDocs = (\<lambda>c field. Inr (store_aggregateSubDocs (store_documents colls c) field)) \<rparr>"

section \<open>Notions used to state the properties\<close>

text \<open>
  The dotted path of a node is the dot-joined concatenation of the names of its ancestors and
  its own name. \<open>tree_nodes\<close> lists the nodes of a schema tree below the given ancestors with
  their dotted paths, in traversal order (a parent before its sub-fields); its length is the
  node count of the tree. \<open>excluded\<close> is the exclusion test on a path, and \<open>kept_entries\<close>
  are the entries of the nodes whose own path passes that test.
\<close>

fun dotted :: "string list \<Rightarrow> string" where
  "dotted [] = []"
| "dotted [n] = n"
| "dotted (n # m # ns) = n @ ''.'' @ dotted (m # ns)"

function tree_nodes :: "field_schema list \<Rightarrow> string list \<Rightarrow> (string \<times> field_schema) list" where
  "tree_nodes flds ancestors =
     concat (map (\<lambda>field.
        (dotted (ancestors @ [name field]), field) #
          (case subFields field of
             Some sub \<Rightarrow> tree_nodes sub (ancestors @ [name field])
           | None \<Rightarrow> [])) flds)"
  by pat_completeness auto
termination
  by (relation "measure (\<lambda>(flds, ancestors). size_list size flds)")
     (auto simp: size_subFields)

declare tree_nodes.simps [simp del]

definition excluded :: "string list \<Rightarrow> string \<Rightarrow> bool" where
  "excluded filters path = list_ex (\<lambda>filteredField. includes_str path filteredField) filters"

definition kept_entries ::
  "string list \<Rightarrow> field_schema list \<Rightarrow> string list \<Rightarrow> (string \<times> string) list" where
  "kept_entries filters flds ancestors =
     map (\<lambda>pn. (fst pn, join (types (snd pn))))
       (filter (\<lambda>pn. \<not> excluded filters (fst pn)) (tree_nodes flds ancestors))"

text \<open>
  The name \<open>fieldName\<close> that \<open>flattenFields\<close> computes for a field, and one call of its
  \<open>forEach\<close> callback.
\<close>

definition fieldName_of :: "string \<Rightarrow> field_schema \<Rightarrow> string" where
  "fieldName_of parentField field =
     (if parentField \<noteq> [] then parentField @ ''.'' @ name field else name field)"

definition flatten_step :: "string list \<Rightarrow> string \<Rightarrow> string obj \<Rightarrow> field_schema \<Rightarrow> string obj" where
  "flatten_step filters parentField result field =
     (let fieldName = fieldName_of parentField field
      in if \<not> excluded filters fieldName then
             (let result = obj_set result fieldName (join (types field))
              in case subFields field of
                   Some sub \<Rightarrow> object_assign result (flattenFields filters sub fieldName)
                 | None \<Rightarrow> result)
           else result)"

text \<open>
  A value is expanded when it is classified as an object, or is an array whose first element
  is classified as an object or an array; \<open>sampled\<close> is the list of documents handed to the
  array-doc derivation then. \<open>reported_type\<close> is the type \<open>getSchema\<close> reports for a row.
\<close>

definition expands :: "jsvalue \<Rightarrow> bool" where
  "expands v =
     (case v of
        JArray (first # rest) \<Rightarrow> getFieldType first = ''object'' \<or> getFieldType first = ''array''
      | _ \<Rightarrow> getFieldType v = ''object'')"

definition sampled :: "jsvalue \<Rightarrow> jsvalue list" where
  "sampled v = (case v of JArray xs \<Rightarrow> xs | _ \<Rightarrow> [v])"


definition reported_type :: "type_row \<Rightarrow> string" where
  "reported_type row = (if ''object'' \<in> set (row_types row) then ''object'' else first_type row)"

text \<open>
  What \<open>getSchema\<close> pushes for a row of the type aggregation: the row's key, its reported
  type, and sub-fields from sub-document sampling exactly when that type is \<open>"object"\<close>.
\<close>

definition top_level_node :: "database \<Rightarrow> string \<Rightarrow> nat \<Rightarrow> type_row \<Rightarrow> field_schema \<Rightarrow> bool" where
  "top_level_node db c depth row node \<longleftrightarrow>
     name node = row_id row \<and> types node = [reported_type row] \<and>
     (if reported_type row = ''object''
      then \<exists>sub. getSchemaFromSubDocs db c (row_id row) (depth + 1) = Inr sub \<and>
             subFields node = Some sub
      else subFields node = None)"

text \<open>An object built by property assignment: distinct keys, none of them \<open>__proto__\<close>.\<close>

definition own_keys :: "'a obj \<Rightarrow> bool" where
  "own_keys obj \<longleftrightarrow> distinct (map fst obj) \<and> ''__proto__'' \<notin> fst ` set obj"

section \<open>Example data\<close>

definition v_options :: options where
  "v_options = \<lparr> filteredFields = Own (Some [''__v'']), logger = Absent \<rparr>"

definition v_fields :: "field_schema list" where
  "v_fields =
     [FieldSchema ''__v'' [''number''] None,
      FieldSchema ''name'' [''string''] None,
      FieldSchema ''meta'' [''object'']
        (Some [FieldSchema ''__v'' [''number''] None, FieldSchema ''name'' [''string''] None])]"

definition dup_fields :: "field_schema list" where
  "dup_fields = [FieldSchema ''a'' [''string''] None, FieldSchema ''a'' [''number''] None]"

definition uniq_fields :: "field_schema list" where
  "uniq_fields =
     [FieldSchema ''a'' [''string''] None,
      FieldSchema ''b'' [''object''] (Some [FieldSchema ''c'' [''number'', ''string''] None])]"

definition users_doc1 :: jsvalue where
  "users_doc1 = JObject [(''name'', JString ''Al''), (''age'', JNumber 30)]"

definition users_doc2 :: jsvalue where
  "users_doc2 =
     JObject [(''name'', JString ''Bo''), (''address'', JObject [(''city'', JString ''NY'')])]"

definition users_full_schema :: full_schema where
  "users_full_schema =
     [(''users'',
       [FieldSchema ''name'' [''string''] None,
        FieldSchema ''age'' [''number''] None,
        FieldSchema ''address'' [''object''] (Some [FieldSchema ''city'' [''string''] None])])]"

definition users_claimed_flatten :: flatten_schema where
  "users_claimed_flatten =
     [(''users'', [(''name'', ''string''), (''age'', ''number''), (''address.city'', ''string'')])]"

definition users_flatten :: flatten_schema where
  "users_flatten =
     [(''users'', [(''name'', ''string''), (''age'', ''number''), (''address'', ''object''),
                   (''address.city'', ''string'')])]"

definition mixed_store :: database where
  "mixed_store =
     memory_store [(''c'',
       [JObject [(''x'', JString ''s'')],
        JObject [(''x'', JObject [(''a'', JNumber 1)])],
        JObject [(''x'', JNumber 5)]])]"

definition ok_client :: mongo_client where
  "ok_client = \<lparr> client_connect = None, client_db = (\<lambda>databaseName. memory_store []) \<rparr>"

definition custom_options :: options where
  "custom_options = \<lparr> filteredFields = Own (Some [''secret'']), logger = Absent \<rparr>"

definition profiles_store :: database where
  "profiles_store =
     memory_store [(''people'',
       [JObject [(''profile'', JObject [(''nick'', JString ''a''), (''age'', JNumber 1)])],
        JObject [(''profile'', JString ''none'')],
        JObject [(''profile'', JObject [(''nick'', JString ''b'')])],
        JObject [(''profile'', JObject [(''tags'', JArray []), (''nick'', JNumber 3)])]])]"

definition failing_store :: database where
  "failing_store =
     \<lparr> listCollections = Inr [''a'', ''b'', ''c''],
       aggregateTypes = (\<lambda>c. if c = ''b'' then Inl (MongoError ''cursor lost'')
                              else Inr [TypeRow ''k'' ''string'' []]),
       aggregateSubDocs = (\<lambda>c field. Inr []) \<rparr>"

definition unreachable_store :: database where
  "unreachable_store =
     \<lparr> listCollections = Inl (MongoError ''not connected''),
       aggregateTypes = (\<lambda>c. Inr []),
       aggregateSubDocs = (\<lambda>c field. Inr []) \<rparr>"

definition items_doc :: jsvalue where
  "items_doc = JObject [(''items'', JArray [JObject [(''a'', JNumber 1)]])]"

definition shapes_doc :: jsvalue where
  "shapes_doc =
     JObject [(''items'', JArray [JObject [(''a'', JNumber 1)]]),
              (''owner'', JObject [(''tags'', JArray [JArray [], JNumber 2]),
                                   (''ids'', JArray [JNumber 1]),
                                   (''none'', JNull)])]"

definition tags_doc :: jsvalue where
  "tags_doc =
     JObject [(''profile'',
       JObject [(''tags'', JArray [JObject [(''a'', JNumber 1)], JString ''x'', JString ''y''])])]"

definition nested_v_fields :: "field_schema list" where
  "nested_v_fields =
     [FieldSchema ''x__v'' [''object'']
        (Some [FieldSchema ''__v'' [''number''] None, FieldSchema ''name'' [''string''] None])]"

definition undefined_filter_options :: options where
  "undefined_filter_options = \<lparr> filteredFields = Own None, logger = Absent \<rparr>"

section \<open>Auxiliary facts\<close>

lemma includes_str_iff: "includes_str s f \<longleftrightarrow> (\<exists>ps ss. s = ps @ f @ ss)"
proof (induction s)
  case Nil
  then show ?case by auto
next
  case (Cons c cs)
  show ?case
  proof
    assume "includes_str (c # cs) f"
    then consider "take (length f) (c # cs) = f" | "includes_str cs f" by auto
    then show "\<exists>ps ss. c # cs = ps @ f @ ss"
    proof cases
      case 1
      then have "c # cs = [] @ f @ drop (length f) (c # cs)"
        by (metis append_Nil append_take_drop_id)
      then show ?thesis by blast
    next
      case 2
      with Cons obtain ps ss where "cs = ps @ f @ ss" by auto
      then have "c # cs = (c # ps) @ f @ ss" by simp
      then show ?thesis by blast
    qed
  next
    assume "\<exists>ps ss. c # cs = ps @ f @ ss"
    then obtain ps ss where eq: "c # cs = ps @ f @ ss" by auto
    show "includes_str (c # cs) f"
    proof (cases ps)
      case Nil
      with eq have "take (length f) (c # cs) = f" by simp
      then show ?thesis by simp
    next
      case (Cons p ps')
      with eq have "cs = ps' @ f @ ss" by simp
      with Cons.IH show ?thesis by auto
    qed
  qed
qed

lemma includes_str_append: "includes_str s f \<Longrightarrow> includes_str (s @ t) f"
  unfolding includes_str_iff by (metis append.assoc)

lemma includes_str_suffix: "includes_str (s @ f) f"
  unfolding includes_str_iff by (metis append_Nil2)

lemma includes_str_self: "includes_str f f"
  using includes_str_suffix [of "[]" f] by simp

subsection \<open>Property assignment\<close>

lemma map_of_insert_index:
  "k \<notin> fst ` set obj \<Longrightarrow> map_of (insert_index k v obj) = (map_of obj)(k \<mapsto> v)"
  by (induction obj) (auto simp: fun_eq_iff)

lemma keys_insert_index: "fst ` set (insert_index k v obj) = insert k (fst ` set obj)"
  by (induction obj) auto

lemma distinct_insert_index:
  "k \<notin> fst ` set obj \<Longrightarrow> distinct (map fst obj) \<Longrightarrow> distinct (map fst (insert_index k v obj))"
  by (induction obj) (auto simp: keys_insert_index)

lemma map_of_obj_set:
  "map_of (obj_set obj k v) = (if k = ''__proto__'' then map_of obj else (map_of obj)(k \<mapsto> v))"
proof -
  have "map_of (obj @ [(k, v)]) = (map_of obj)(k \<mapsto> v)" if "k \<notin> fst ` set obj"
  proof -
    from that have "map_of obj k = None" by (simp add: map_of_eq_None_iff)
    then show ?thesis by (auto simp: fun_eq_iff map_add_def split: option.splits)
  qed
  then show ?thesis
    by (simp add: obj_set_def update_conv' map_of_insert_index del: map_of_append)
qed

lemma keys_obj_set:
  "fst ` set (obj_set obj k v) =
     (if k = ''__proto__'' then fst ` set obj else insert k (fst ` set obj))"
  by (auto simp: obj_set_def dom_update keys_insert_index)

lemma distinct_obj_set:
  "distinct (map fst obj) \<Longrightarrow> distinct (map fst (obj_set obj k v))"
  by (simp add: obj_set_def distinct_update distinct_insert_index)

lemma own_keys_Nil: "own_keys []"
  by (simp add: own_keys_def)

lemma own_keys_obj_set: "own_keys obj \<Longrightarrow> own_keys (obj_set obj k v)"
  by (auto simp: own_keys_def distinct_obj_set keys_obj_set)

lemma own_keys_object_assign: "own_keys target \<Longrightarrow> own_keys (object_assign target source)"
  unfolding object_assign_def
  by (induction source arbitrary: target) (simp_all add: own_keys_obj_set)

lemma map_of_object_assign:
  "''__proto__'' \<notin> fst ` set source \<Longrightarrow>
   map_of (object_assign target source) = map_of target ++ map_of (rev source)"
  unfolding object_assign_def
  by (induction source arbitrary: target) (auto simp: map_of_obj_set)

lemma map_of_rev_distinct: "distinct (map fst xs) \<Longrightarrow> map_of (rev xs) = map_of xs"
  by (induction xs) (auto simp: map_add_def fun_eq_iff split: option.splits dest: map_of_SomeD
       intro: rev_image_eqI)

subsection \<open>The flattener\<close>

lemma flattenFields_foldl:
  "flattenFields filters flds parentField = foldl (flatten_step filters parentField) [] flds"
  by (subst flattenFields.simps) (simp add: flatten_step_def [abs_def] fieldName_of_def excluded_def)

lemma own_keys_foldl_step:
  "(\<And>field sub p. field \<in> set flds \<Longrightarrow> subFields field = Some sub \<Longrightarrow>
        own_keys (flattenFields filters sub p)) \<Longrightarrow>
   own_keys acc \<Longrightarrow> own_keys (foldl (flatten_step filters parent) acc flds)"
proof (induction flds arbitrary: acc)
  case Nil
  then show ?case by simp
next
  case (Cons field flds)
  have "own_keys (flatten_step filters parent acc field)"
    using Cons.prems(2)
    by (auto simp: flatten_step_def Let_def own_keys_obj_set own_keys_object_assign split: option.splits)
  then have "own_keys (foldl (flatten_step filters parent) (flatten_step filters parent acc field) flds)"
    using Cons.prems(1) by (intro Cons.IH) auto
  then show ?case by simp
qed

lemma own_keys_flattenFields: "own_keys (flattenFields filters flds parent)"
proof (induction flds arbitrary: parent rule: measure_induct_rule [where f = "size_list size"])
  case (less flds)
  show ?case unfolding flattenFields_foldl
    by (rule own_keys_foldl_step) (auto intro: less size_subFields own_keys_Nil)
qed

lemma distinct_flattenFields: "distinct (map fst (flattenFields filters flds parent))"
  using own_keys_flattenFields [of filters flds parent] by (simp add: own_keys_def)

lemma proto_flattenFields: "''__proto__'' \<notin> fst ` set (flattenFields filters flds parent)"
  using own_keys_flattenFields [of filters flds parent] by (simp add: own_keys_def)

subsection \<open>Dotted paths\<close>

lemma dotted_snoc: "dotted (ancestors @ [n]) = (if ancestors = [] then n else dotted ancestors @ ''.'' @ n)"
proof (induction ancestors rule: dotted.induct)
  case 1
  then show ?case by simp
next
  case (2 a)
  then show ?case by simp
next
  case (3 a b as)
  then show ?case by simp
qed

lemma dotted_snoc_nonempty:
  "(ancestors = [] \<longrightarrow> n \<noteq> []) \<Longrightarrow> dotted (ancestors @ [n]) \<noteq> []"
  by (simp add: dotted_snoc)

lemma fieldName_of_dotted:
  "(ancestors = [] \<longleftrightarrow> dotted ancestors = []) \<Longrightarrow>
   fieldName_of (dotted ancestors) field = dotted (ancestors @ [name field])"
  by (auto simp: fieldName_of_def dotted_snoc)

lemma tree_nodes_mem:
  "pn \<in> set (tree_nodes flds ancestors) \<longleftrightarrow>
     (\<exists>field\<in>set flds. pn = (dotted (ancestors @ [name field]), field) \<or>
        (\<exists>sub. subFields field = Some sub \<and> pn \<in> set (tree_nodes sub (ancestors @ [name field]))))"
  apply (subst tree_nodes.simps)
  apply (auto split: option.splits)
   apply metis
  apply metis
  done

lemma tree_nodes_Nil: "tree_nodes [] ancestors = []"
  by (simp add: tree_nodes.simps)

lemma tree_nodes_Cons:
  "tree_nodes (field # flds) ancestors =
     (dotted (ancestors @ [name field]), field) #
       (case subFields field of Some sub \<Rightarrow> tree_nodes sub (ancestors @ [name field]) | None \<Rightarrow> [])
     @ tree_nodes flds ancestors"
  by (simp add: tree_nodes.simps [of "field # flds"] tree_nodes.simps [of flds])

lemma tree_nodes_sub:
  "field \<in> set flds \<Longrightarrow> subFields field = Some sub \<Longrightarrow>
   set (tree_nodes sub (ancestors @ [name field])) \<subseteq> set (tree_nodes flds ancestors)"
  using tree_nodes_mem [of _ flds ancestors] by blast

lemma path_includes_name:
  "pn \<in> set (tree_nodes flds ancestors) \<Longrightarrow> includes_str (fst pn) (name (snd pn))"
proof (induction flds arbitrary: ancestors pn rule: measure_induct_rule [where f = "size_list size"])
  case (less flds)
  from less.prems obtain field where field: "field \<in> set flds"
    and pn: "pn = (dotted (ancestors @ [name field]), field) \<or>
             (\<exists>sub. subFields field = Some sub \<and> pn \<in> set (tree_nodes sub (ancestors @ [name field])))"
    unfolding tree_nodes_mem [of pn flds] by blast
  from pn show ?case
  proof
    assume "pn = (dotted (ancestors @ [name field]), field)"
    then show ?thesis
      using includes_str_suffix [of "dotted ancestors @ ''.''" "name field"]
      by (simp add: dotted_snoc includes_str_self)
  next
    assume "\<exists>sub. subFields field = Some sub \<and> pn \<in> set (tree_nodes sub (ancestors @ [name field]))"
    then obtain sub where "subFields field = Some sub" "pn \<in> set (tree_nodes sub (ancestors @ [name field]))"
      by auto
    with less.IH [of sub] field show ?thesis using size_subFields by blast
  qed
qed

lemma excluded_below:
  "ancestors \<noteq> [] \<Longrightarrow> excluded filters (dotted ancestors) \<Longrightarrow>
   pn \<in> set (tree_nodes flds ancestors) \<Longrightarrow> excluded filters (fst pn)"
proof (induction flds arbitrary: ancestors pn rule: measure_induct_rule [where f = "size_list size"])
  case (less flds)
  from less.prems(3) obtain field where field: "field \<in> set flds"
    and pn: "pn = (dotted (ancestors @ [name field]), field) \<or>
             (\<exists>sub. subFields field = Some sub \<and> pn \<in> set (tree_nodes sub (ancestors @ [name field])))"
    unfolding tree_nodes_mem [of pn flds] by blast
  have ex: "excluded filters (dotted (ancestors @ [name field]))"
    using less.prems(1,2)
    by (auto simp: excluded_def list_ex_iff dotted_snoc intro: includes_str_append)
  from pn show ?case
  proof
    assume "pn = (dotted (ancestors @ [name field]), field)"
    with ex show ?thesis by simp
  next
    assume "\<exists>sub. subFields field = Some sub \<and> pn \<in> set (tree_nodes sub (ancestors @ [name field]))"
    then obtain sub where sub: "subFields field = Some sub"
      and mem: "pn \<in> set (tree_nodes sub (ancestors @ [name field]))" by auto
    have "size_list size sub < size_list size flds" using field sub by (rule size_subFields)
    from less.IH [OF this _ ex mem] show ?thesis by simp
  qed
qed

lemma kept_entries_excluded:
  "ancestors \<noteq> [] \<Longrightarrow> excluded filters (dotted ancestors) \<Longrightarrow>
   kept_entries filters flds ancestors = []"
  by (auto simp: kept_entries_def filter_empty_conv dest: excluded_below)

lemma kept_entries_Nil: "kept_entries filters [] ancestors = []"
  by (simp add: kept_entries_def tree_nodes_Nil)

lemma kept_entries_Cons:
  "kept_entries filters (field # flds) ancestors =
     (if excluded filters (dotted (ancestors @ [name field])) then []
      else (dotted (ancestors @ [name field]), join (types field)) #
           (case subFields field of
              Some sub \<Rightarrow> kept_entries filters sub (ancestors @ [name field])
            | None \<Rightarrow> []))
     @ kept_entries filters flds ancestors"
proof (cases "excluded filters (dotted (ancestors @ [name field]))")
  case True
  then have "\<And>sub. kept_entries filters sub (ancestors @ [name field]) = []"
    by (intro kept_entries_excluded) simp_all
  then show ?thesis using True
    by (auto simp: tree_nodes_Cons kept_entries_def split: option.splits)
next
  case False
  then show ?thesis by (auto simp: tree_nodes_Cons kept_entries_def split: option.splits)
qed

lemma map_of_foldl_step:
  assumes sub: "\<And>field sub. field \<in> set flds \<Longrightarrow> subFields field = Some sub \<Longrightarrow>
        map_of (flattenFields filters sub (dotted (ancestors @ [name field]))) =
        map_of (rev (kept_entries filters sub (ancestors @ [name field])))"
    and root: "ancestors = [] \<longleftrightarrow> dotted ancestors = []"
    and proto: "\<forall>pn\<in>set (tree_nodes flds ancestors). fst pn \<noteq> ''__proto__''"
  shows "map_of (foldl (flatten_step filters (dotted ancestors)) acc flds) =
     map_of acc ++ map_of (rev (kept_entries filters flds ancestors))"
  using sub proto
proof (induction flds arbitrary: acc)
  case Nil
  then show ?case by (simp add: kept_entries_Nil)
next
  case (Cons field flds)
  let ?path = "dotted (ancestors @ [name field])"
  have name: "fieldName_of (dotted ancestors) field = ?path"
    using root by (rule fieldName_of_dotted)
  have np: "?path \<noteq> ''__proto__''"
    using Cons.prems(2) by (simp add: tree_nodes_Cons)
  have sub_eq: "\<And>sub. subFields field = Some sub \<Longrightarrow>
      map_of (flattenFields filters sub ?path) = map_of (rev (kept_entries filters sub (ancestors @ [name field])))"
    by (rule Cons.prems(1)) simp_all
  have step: "map_of (flatten_step filters (dotted ancestors) acc field) =
      map_of acc ++ map_of (rev (if excluded filters ?path then []
      else (?path, join (types field)) #
           (case subFields field of Some sub \<Rightarrow> kept_entries filters sub (ancestors @ [name field])
            | None \<Rightarrow> [])))"
    using np
    by (auto simp: flatten_step_def name Let_def map_of_obj_set sub_eq
          map_of_object_assign [OF proto_flattenFields]
          map_of_rev_distinct [OF distinct_flattenFields] split: option.splits)
  have rest: "\<forall>pn\<in>set (tree_nodes flds ancestors). fst pn \<noteq> ''__proto__''"
    using Cons.prems(2) by (simp add: tree_nodes_Cons)
  have "map_of (foldl (flatten_step filters (dotted ancestors))
           (flatten_step filters (dotted ancestors) acc field) flds) =
      map_of (flatten_step filters (dotted ancestors) acc field) ++
      map_of (rev (kept_entries filters flds ancestors))"
    using Cons.prems(1) rest by (intro Cons.IH) auto
  then show ?case
    by (simp add: step kept_entries_Cons del: map_of_append) (simp add: map_of_append)
qed

text \<open>
  The flattened map of a field list, read as a map, is the one of the entries kept by the
  exclusion test on each node's own dotted path, a later entry overriding an earlier one;
  provided a top-level field with sub-fields has a non-empty name, and no dotted path is
  \<open>__proto__\<close>.
\<close>

lemma map_of_flattenFields:
  assumes "ancestors = [] \<longleftrightarrow> dotted ancestors = []"
    and "ancestors = [] \<longrightarrow> (\<forall>field\<in>set flds. subFields field \<noteq> None \<longrightarrow> name field \<noteq> [])"
    and "\<forall>pn\<in>set (tree_nodes flds ancestors). fst pn \<noteq> ''__proto__''"
  shows "map_of (flattenFields filters flds (dotted ancestors)) =
     map_of (rev (kept_entries filters flds ancestors))"
  using assms
proof (induction flds arbitrary: ancestors rule: measure_induct_rule [where f = "size_list size"])
  case (less flds)
  have "map_of (foldl (flatten_step filters (dotted ancestors)) [] flds) =
      map_of [] ++ map_of (rev (kept_entries filters flds ancestors))"
  proof (rule map_of_foldl_step)
    fix field sub
    assume field: "field \<in> set flds" and sub: "subFields field = Some sub"
    have small: "size_list size sub < size_list size flds" using field sub by (rule size_subFields)
    have ne: "dotted (ancestors @ [name field]) \<noteq> []"
      using less.prems(1,2) field sub by (auto simp: dotted_snoc)
    have proto: "\<forall>pn\<in>set (tree_nodes sub (ancestors @ [name field])). fst pn \<noteq> ''__proto__''"
      using less.prems(3) tree_nodes_sub [OF field sub, of ancestors] by blast
    show "map_of (flattenFields filters sub (dotted (ancestors @ [name field]))) =
        map_of (rev (kept_entries filters sub (ancestors @ [name field])))"
      using ne proto by (intro less.IH [OF small]) simp_all
  qed (use less.prems in simp_all)
  then show ?case by (simp add: flattenFields_foldl)
qed

lemma keys_kept_entries:
  "p \<in> fst ` set (kept_entries filters flds ancestors) \<longleftrightarrow>
     p \<in> fst ` set (tree_nodes flds ancestors) \<and> \<not> excluded filters p"
  by (force simp: kept_entries_def image_iff)

lemma kept_entries_all:
  "\<forall>pn\<in>set (tree_nodes flds ancestors). \<not> excluded filters (fst pn) \<Longrightarrow>
   kept_entries filters flds ancestors =
     map (\<lambda>pn. (fst pn, join (types (snd pn)))) (tree_nodes flds ancestors)"
  by (simp add: kept_entries_def)

lemma keys_flattenFields:
  assumes "\<forall>field\<in>set flds. subFields field \<noteq> None \<longrightarrow> name field \<noteq> []"
    and "\<forall>pn\<in>set (tree_nodes flds []). fst pn \<noteq> ''__proto__''"
  shows "fst ` set (flattenFields filters flds []) = fst ` set (kept_entries filters flds [])"
proof -
  have "map_of (flattenFields filters flds (dotted [])) = map_of (rev (kept_entries filters flds []))"
    using assms by (intro map_of_flattenFields) simp_all
  then have "dom (map_of (flattenFields filters flds [])) = dom (map_of (rev (kept_entries filters flds [])))"
    by simp
  then show ?thesis by (simp add: dom_map_of_conv_image_fst)
qed

subsection \<open>The flattened schema\<close>

lemma flattenSchema_filters:
  "prop_get (filteredFields opts) = Some filters \<Longrightarrow>
   flattenSchema opts schema =
     Inr (foldl (\<lambda>flattenedSchema entry.
            obj_set flattenedSchema (fst entry) (flattenFields filters (snd entry) []))
           [] schema)"
  by (simp add: flattenSchema_def)

lemma flattenSchema_undefined:
  "prop_get (filteredFields opts) = None \<Longrightarrow> flds \<noteq> [] \<Longrightarrow>
   flattenSchema opts [(c, flds)] = Inl (TypeError ''Cannot read properties of undefined'')"
  by (simp add: flattenSchema_def)

lemma map_of_foldl_obj_set:
  "distinct (map fst xs) \<Longrightarrow> (c, x) \<in> set xs \<Longrightarrow> c \<noteq> ''__proto__'' \<Longrightarrow>
   map_of (foldl (\<lambda>acc e. obj_set acc (fst e) (g (snd e))) acc xs) c = Some (g x)"
proof (induction xs arbitrary: x rule: rev_induct)
  case Nil
  then show ?case by simp
next
  case (snoc e xs)
  show ?case
  proof (cases "fst e = c")
    case True
    with snoc.prems have "snd e = x" by (cases e) (auto simp: rev_image_eqI)
    with True snoc.prems(3) show ?thesis by (simp add: map_of_obj_set)
  next
    case False
    with snoc.prems have "(c, x) \<in> set xs" by auto
    with snoc show ?thesis using False by (simp add: map_of_obj_set)
  qed
qed

lemma flattenSchema_lookup:
  "prop_get (filteredFields opts) = Some filters \<Longrightarrow> distinct (map fst schema) \<Longrightarrow>
   (c, flds) \<in> set schema \<Longrightarrow> c \<noteq> ''__proto__'' \<Longrightarrow>
   \<exists>flat. flattenSchema opts schema = Inr flat \<and>
      map_of flat c = Some (flattenFields filters flds [])"
  using map_of_foldl_obj_set [of schema c flds "\<lambda>flds. flattenFields filters flds []" "[]"]
  by (simp add: flattenSchema_filters)

lemmas obj_eval = obj_set_def is_array_index_def is_digit_def object_assign_def

lemma flatten_users:
  "flattenSchema (initial_heap defaultOptions) users_full_schema = Inr users_flatten"
  by (simp add: flattenSchema_def initial_heap_def users_full_schema_def users_flatten_def
        flattenFields.simps obj_eval)

text \<open>
  Two properties of assignment on examples: a field named \<open>__proto__\<close> leaves no entry,
  and array-index keys are enumerated first, in numeric order.
\<close>

lemma flattenFields_proto_example:
  "flattenFields [] [FieldSchema ''a'' [''string''] None, FieldSchema ''__proto__'' [''string''] None,
                     FieldSchema ''constructor'' [''string''] None] [] =
     [(''a'', ''string''), (''constructor'', ''string'')]"
  by (simp add: flattenFields.simps obj_eval)

lemma flattenFields_index_example:
  "flattenFields [] [FieldSchema ''b'' [''string''] None, FieldSchema ''10'' [''number''] None,
                     FieldSchema ''9'' [''boolean''] None, FieldSchema ''01'' [''string''] None] [] =
     [(''9'', ''boolean''), (''10'', ''number''), (''b'', ''string''), (''01'', ''string'')]"
  by (simp add: flattenFields.simps obj_eval nat_of_digits_def)

lemma foldl_snoc: "foldl (\<lambda>acc x. acc @ [f x]) acc xs = acc @ map f xs"
  by (induction xs arbitrary: acc) simp_all

lemma foldl_append_each: "foldl (\<lambda>acc x. acc @ g x) acc xs = acc @ concat (map g xs)"
  by (induction xs arbitrary: acc) simp_all

lemma getSchemaFromArrayDocs_concat:
  "getSchemaFromArrayDocs arrayDocs depth =
     concat (map (\<lambda>doc.
        map (\<lambda>entry. FieldSchema (fst entry) [getFieldType (snd entry)]
                        (getSubFields (snd entry) (getFieldType (snd entry)) depth))
          (for_in doc)) arrayDocs)"
  by (simp add: getSchemaFromArrayDocs.simps Let_def foldl_snoc foldl_append_each)

lemma getFieldType_cases:
  "getFieldType v = ''array'' \<longleftrightarrow> isArray v"
  "getFieldType v = ''object'' \<longleftrightarrow> \<not> isArray v \<and> typeof v = ''object''"
  by (cases v; simp add: getFieldType_def)+

lemma typeof_not_array: "typeof v \<noteq> ''array''"
  by (cases v) simp_all

lemma composite_first:
  "(isArray x \<or> typeof x = ''object'') \<longleftrightarrow> (getFieldType x = ''object'' \<or> getFieldType x = ''array'')"
  by (cases x) (simp_all add: getFieldType_def)

lemma getSubFields_expands:
  "getSubFields v (getFieldType v) depth =
     (if expands v then Some (getSchemaFromArrayDocs (sampled v) (depth + 1)) else None)"
proof (cases v)
  case (JArray xs)
  then show ?thesis
    by (cases xs) (auto simp: getSubFields.simps expands_def sampled_def getFieldType_def typeof_not_array)
qed (simp_all add: getSubFields.simps expands_def sampled_def getFieldType_def)

lemma getSchemaFromSubDocs_concat:
  "aggregateSubDocs db c field = Inr subDocs \<Longrightarrow>
   getSchemaFromSubDocs db c field depth =
     Inr (concat (map (\<lambda>subDoc. getSchemaFromArrayDocs [subDoc] depth) subDocs))"
  by (simp add: getSchemaFromSubDocs_def foldl_append_each)


lemma getSchema_fields_nodes:
  "getSchema_fields db c depth rows acc = Inr schema \<Longrightarrow>
   \<exists>new. schema = acc @ new \<and> list_all2 (top_level_node db c depth) rows new"
proof (induction rows arbitrary: acc)
  case Nil
  then show ?case by simp
next
  case (Cons row rows)
  show ?case
  proof (cases "reported_type row = ''object''")
    case True
    with Cons.prems obtain sub where sub: "getSchemaFromSubDocs db c (row_id row) (depth + 1) = Inr sub"
      and rest: "getSchema_fields db c depth rows (acc @ [FieldSchema (row_id row) [''object''] (Some sub)]) = Inr schema"
      by (auto simp: reported_type_def Let_def split: sum.splits if_splits)
    from Cons.IH [OF rest] obtain new where
      "schema = (acc @ [FieldSchema (row_id row) [''object''] (Some sub)]) @ new"
      "list_all2 (top_level_node db c depth) rows new" by blast
    moreover have "top_level_node db c depth row (FieldSchema (row_id row) [''object''] (Some sub))"
      using True sub by (simp add: top_level_node_def)
    ultimately show ?thesis
      by (intro exI [of _ "FieldSchema (row_id row) [''object''] (Some sub) # new"]) simp
  next
    case False
    with Cons.prems have rest: "getSchema_fields db c depth rows (acc @ [FieldSchema (row_id row) [reported_type row] None]) = Inr schema"
      by (auto simp: reported_type_def Let_def split: sum.splits if_splits)
    from Cons.IH [OF rest] obtain new where
      "schema = (acc @ [FieldSchema (row_id row) [reported_type row] None]) @ new"
      "list_all2 (top_level_node db c depth) rows new" by blast
    moreover have "top_level_node db c depth row (FieldSchema (row_id row) [reported_type row] None)"
      using False by (simp add: top_level_node_def)
    ultimately show ?thesis
      by (intro exI [of _ "FieldSchema (row_id row) [reported_type row] None # new"]) simp
  qed
qed

lemma getSchema_nodes:
  "aggregateTypes db c = Inr rows \<Longrightarrow> getSchema db c depth = Inr schema \<Longrightarrow>
   list_all2 (top_level_node db c depth) rows schema"
  using getSchema_fields_nodes [of db c depth rows "[]" schema] by (simp add: getSchema_def)

lemma string_of_nat_0: "string_of_nat 0 = ''0''"
  by (simp add: string_of_nat.simps digit_def)


lemma mixed_rows:
  "aggregateTypes mixed_store ''c'' = Inr [TypeRow ''x'' ''string'' [''object'', ''number'']]"
  by (simp add: mixed_store_def memory_store_def store_documents_def store_aggregateTypes_def
        row_types_def)

lemma mixed_schema:
  "getSchema mixed_store ''c'' 0 =
     Inr [FieldSchema ''x'' [''object''] (Some [FieldSchema ''a'' [''number''] None])]"
  by (simp add: getSchema_def mixed_rows row_types_def Let_def getSchemaFromSubDocs_def)
     (simp add: mixed_store_def memory_store_def store_documents_def store_aggregateSubDocs_def
        getSchemaFromArrayDocs.simps getSubFields.simps getFieldType_def Let_def)

lemma names_getSchemaFromArrayDocs:
  "map name (getSchemaFromArrayDocs arrayDocs depth) =
     concat (map (\<lambda>doc. map fst (for_in doc)) arrayDocs)"
  by (simp add: getSchemaFromArrayDocs_concat map_concat comp_def)

lemma count_distinct_key:
  "distinct ks \<Longrightarrow> f \<in> set ks \<Longrightarrow> length (filter (\<lambda>k. k = f) ks) = 1"
  by (induction ks) (auto simp: filter_empty_conv)

lemma count_names:
  "length (filter (\<lambda>node. name node = f) schema) = length (filter (\<lambda>k. k = f) (map name schema))"
  by (induction schema) simp_all

lemma count_sub_documents:
  "\<forall>subDoc\<in>set subDocs. \<exists>kvs. subDoc = JObject kvs \<and> distinct (map fst kvs) \<and> f \<in> set (map fst kvs) \<Longrightarrow>
   length (filter (\<lambda>k. k = f) (concat (map (\<lambda>subDoc. map fst (for_in subDoc)) subDocs))) =
     length subDocs"
proof (induction subDocs)
  case Nil
  then show ?case by simp
next
  case (Cons subDoc subDocs)
  from Cons.prems obtain kvs where "subDoc = JObject kvs" "distinct (map fst kvs)" "f \<in> set (map fst kvs)"
    by auto
  then have "length (filter (\<lambda>k. k = f) (map fst (for_in subDoc))) = 1"
    using count_distinct_key [of "map fst kvs" f] by (simp del: filter_map)
  moreover have "length (filter (\<lambda>k. k = f) (concat (map (\<lambda>subDoc. map fst (for_in subDoc)) subDocs))) =
     length subDocs" using Cons.prems by (intro Cons.IH) simp
  ultimately show ?case by simp
qed

lemma profiles_subDocs:
  "aggregateSubDocs profiles_store ''people'' ''profile'' =
     Inr [JObject [(''nick'', JString ''a''), (''age'', JNumber 1)],
          JObject [(''nick'', JString ''b'')],
          JObject [(''tags'', JArray []), (''nick'', JNumber 3)]]"
  by (simp add: profiles_store_def memory_store_def store_documents_def store_aggregateSubDocs_def)

lemma generate_collections_Inr:
  "generate_collections db collections acc = Inr schema \<Longrightarrow>
   \<forall>c\<in>set collections. \<exists>flds. getSchema db c 0 = Inr flds"
  by (induction collections arbitrary: acc) (auto split: sum.splits)

lemma generate_collections_fails:
  "\<forall>p\<in>set pre. \<exists>flds. getSchema db p 0 = Inr flds \<Longrightarrow> getSchema db c 0 = Inl e \<Longrightarrow>
   generate_collections db (pre @ c # post) acc = Inl e"
  by (induction pre arbitrary: acc) auto

lemma items_rows:
  "aggregateTypes (memory_store [(''c'', [items_doc])]) ''c'' = Inr [TypeRow ''items'' ''array'' []]"
  by (simp add: memory_store_def store_documents_def store_aggregateTypes_def items_doc_def)

lemma items_schema:
  "getSchema (memory_store [(''c'', [items_doc])]) ''c'' 0 = Inr [FieldSchema ''items'' [''array''] None]"
  by (simp add: getSchema_def items_rows row_types_def Let_def)

lemma shapes_rows:
  "aggregateTypes (memory_store [(''c'', [shapes_doc])]) ''c'' =
     Inr [TypeRow ''items'' ''array'' [], TypeRow ''owner'' ''object'' []]"
  by (simp add: memory_store_def store_documents_def store_aggregateTypes_def shapes_doc_def
        row_types_def)

lemma shapes_subDocs:
  "aggregateSubDocs (memory_store [(''c'', [shapes_doc])]) ''c'' ''owner'' =
     Inr [JObject [(''tags'', JArray [JArray [], JNumber 2]), (''ids'', JArray [JNumber 1]),
                   (''none'', JNull)]]"
  by (simp add: memory_store_def store_documents_def store_aggregateSubDocs_def shapes_doc_def)

lemma shapes_owner:
  "getSchemaFromArrayDocs
     [JObject [(''tags'', JArray [JArray [], JNumber 2]), (''ids'', JArray [JNumber 1]),
               (''none'', JNull)]] (Suc 0) =
   [FieldSchema ''tags'' [''array''] (Some []),
    FieldSchema ''ids'' [''array''] None,
    FieldSchema ''none'' [''object''] (Some [])]"
  by (simp add: getSchemaFromArrayDocs.simps getSubFields.simps getFieldType_def Let_def)

lemma shapes_schema:
  "getSchema (memory_store [(''c'', [shapes_doc])]) ''c'' 0 =
     Inr [FieldSchema ''items'' [''array''] None,
          FieldSchema ''owner'' [''object'']
            (Some [FieldSchema ''tags'' [''array''] (Some []),
                   FieldSchema ''ids'' [''array''] None,
                   FieldSchema ''none'' [''object''] (Some [])])]"
  by (simp add: getSchema_def shapes_rows row_types_def Let_def getSchemaFromSubDocs_def
        shapes_subDocs shapes_owner)

section \<open>End-to-end scenario\<close>

text \<open>
  Claim C1, as amended. For the collection \<open>users\<close> with the two documents
  \<open>{name:"Al", age:30}\<close> and \<open>{name:"Bo", address:{city:"NY"}}\<close>, that is, when the store lists
  \<open>users\<close>, answers the type aggregation with \<open>name: string\<close>, \<open>age: number\<close> and
  \<open>address: object\<close>, and the sub-document projection of \<open>address\<close> with \<open>{city:"NY"}\<close>,
  schema discovery yields the full schema of the claim, and \<open>flattenSchema\<close> with the default
  exclusion list yields \<open>{users: {name:"string", age:"number", address:"object",
  "address.city":"string"}}\<close>: the object-typed parent \<open>address\<close> has its own entry.
\<close>

theorem C1_end_to_end:
  assumes "listCollections db = Inr [''users'']"
    and "aggregateTypes db ''users'' =
           Inr [TypeRow ''name'' ''string'' [], TypeRow ''age'' ''number'' [],
                TypeRow ''address'' ''object'' []]"
    and "aggregateSubDocs db ''users'' ''address'' = Inr [JObject [(''city'', JString ''NY'')]]"
  shows "generateSchemaForAllCollections db = Inr users_full_schema \<and>
         flattenSchema (initial_heap defaultOptions) users_full_schema = Inr users_flatten"
proof -
  have sub: "getSchemaFromSubDocs db ''users'' ''address'' (Suc 0) = Inr [FieldSchema ''city'' [''string''] None]"
    using assms(3)
    by (simp add: getSchemaFromSubDocs_def getSchemaFromArrayDocs.simps getSubFields.simps
          getFieldType_def Let_def)
  have "getSchema db ''users'' 0 =
          Inr [FieldSchema ''name'' [''string''] None,
               FieldSchema ''age'' [''number''] None,
               FieldSchema ''address'' [''object''] (Some [FieldSchema ''city'' [''string''] None])]"
    using assms(2) sub by (simp add: getSchema_def row_types_def Let_def)
  then have "generateSchemaForAllCollections db = Inr users_full_schema"
    using assms(1)
    by (simp add: generateSchemaForAllCollections_def users_full_schema_def obj_eval)
  then show ?thesis using flatten_users by simp
qed

text \<open>
  The flattened schema of the claim, without the entry for \<open>address\<close>, is not what the code
  returns for that full schema.
\<close>

theorem C1_flatten_counterexample:
  "flattenSchema (initial_heap defaultOptions) users_full_schema = Inr users_flatten \<and>
   map_of users_flatten ''users'' =
     Some [(''name'', ''string''), (''age'', ''number''), (''address'', ''object''),
           (''address.city'', ''string'')] \<and>
   flattenSchema (initial_heap defaultOptions) users_full_schema \<noteq> Inr users_claimed_flatten"
  by (simp add: flatten_users) (simp add: users_flatten_def users_claimed_flatten_def)

theorem C1_witness:
  "listCollections (memory_store [(''users'', [users_doc1, users_doc2])]) = Inr [''users''] \<and>
   aggregateTypes (memory_store [(''users'', [users_doc1, users_doc2])]) ''users'' =
     Inr [TypeRow ''name'' ''string'' [], TypeRow ''age'' ''number'' [],
          TypeRow ''address'' ''object'' []] \<and>
   aggregateSubDocs (memory_store [(''users'', [users_doc1, users_doc2])]) ''users'' ''address'' =
     Inr [JObject [(''city'', JString ''NY'')]] \<and>
   generateSchemaForAllCollections (memory_store [(''users'', [users_doc1, users_doc2])]) =
     Inr users_full_schema \<and>
   flattenSchema (initial_heap defaultOptions) users_full_schema = Inr users_flatten"
proof -
  let ?db = "memory_store [(''users'', [users_doc1, users_doc2])]"
  have h1: "listCollections ?db = Inr [''users'']" by (simp add: memory_store_def)
  have h2: "aggregateTypes ?db ''users'' =
     Inr [TypeRow ''name'' ''string'' [], TypeRow ''age'' ''number'' [],
          TypeRow ''address'' ''object'' []]"
    by (simp add: memory_store_def store_documents_def store_aggregateTypes_def
          users_doc1_def users_doc2_def row_types_def)
  have h3: "aggregateSubDocs ?db ''users'' ''address'' = Inr [JObject [(''city'', JString ''NY'')]]"
    by (simp add: memory_store_def store_documents_def store_aggregateSubDocs_def
          users_doc1_def users_doc2_def)
  from C1_end_to_end [OF h1 h2 h3] h1 h2 h3 show ?thesis by simp
qed

section \<open>Object wins ties\<close>

text \<open>
  Claim C2. \<open>getSchema\<close> reports one field per row of the type aggregation, in order and
  under the row's key, and whenever the set of type labels observed for the key contains
  \<open>"object"\<close>, the field's list of types is exactly \<open>["object"]\<close>, whatever other labels the
  set holds and wherever \<open>"object"\<close> stands in it.
\<close>

theorem C2_object_wins:
  assumes "aggregateTypes db c = Inr rows" and "getSchema db c depth = Inr schema"
  shows "list_all2 (\<lambda>row node. name node = row_id row \<and>
            (''object'' \<in> set (row_types row) \<longrightarrow> types node = [''object''])) rows schema"
proof -
  have "list_all2 (top_level_node db c depth) rows schema"
    using assms by (rule getSchema_nodes)
  then show ?thesis
    by (rule list_all2_mono) (simp add: top_level_node_def reported_type_def)
qed

theorem C2_witness:
  "aggregateTypes mixed_store ''c'' = Inr [TypeRow ''x'' ''string'' [''object'', ''number'']] \<and>
   getSchema mixed_store ''c'' 0 =
     Inr [FieldSchema ''x'' [''object''] (Some [FieldSchema ''a'' [''number''] None])] \<and>
   ''object'' \<in> set (row_types (TypeRow ''x'' ''string'' [''object'', ''number''])) \<and>
   list_all2 (\<lambda>row node. name node = row_id row \<and>
       (''object'' \<in> set (row_types row) \<longrightarrow> types node = [''object'']))
     [TypeRow ''x'' ''string'' [''object'', ''number'']]
     [FieldSchema ''x'' [''object''] (Some [FieldSchema ''a'' [''number''] None])]"
  using C2_object_wins [OF mixed_rows mixed_schema] mixed_rows mixed_schema
  by (simp add: row_types_def)

section \<open>Array-first-element policy\<close>

text \<open>
  Claim C3. For a field whose value is a non-empty array, sub-fields are derived exactly when
  the first element is an object or an array, and then the array-doc derivation runs over the
  whole array; for the value \<open>[{a:1}, "x", "y"]\<close> the first element should contribute the
  field \<open>a\<close> and the two strings nothing. The code run on that value returns three
  sub-fields: \<open>a\<close>, and one field named \<open>0\<close> of type string for each of the two strings,
  because \<open>for (const key in doc)\<close> enumerates the character indices of a string element;
  so does schema discovery for a collection whose document holds the array in a sub-document.
\<close>

theorem C3_mixed_array_result:
  "getSubFields (JArray [JObject [(''a'', JNumber 1)], JString ''x'', JString ''y''])
     (getFieldType (JArray [JObject [(''a'', JNumber 1)], JString ''x'', JString ''y''])) depth =
   Some [FieldSchema ''a'' [''number''] None,
         FieldSchema ''0'' [''string''] None,
         FieldSchema ''0'' [''string''] None] \<and>
   getSchema (memory_store [(''c'', [tags_doc])]) ''c'' 0 =
     Inr [FieldSchema ''profile'' [''object'']
            (Some [FieldSchema ''tags'' [''array'']
                     (Some [FieldSchema ''a'' [''number''] None,
                            FieldSchema ''0'' [''string''] None,
                            FieldSchema ''0'' [''string''] None])])]"
  by (simp add: getSubFields.simps getSchemaFromArrayDocs.simps getFieldType_def
        string_of_nat_0 Let_def getSchema_def getSchemaFromSubDocs_def row_types_def
        memory_store_def store_documents_def store_aggregateTypes_def
        store_aggregateSubDocs_def tags_doc_def)

section \<open>Exclusion in the flattener\<close>

text \<open>
  Claim C4, as amended. Exclusion is decided for each dotted path on its own: for every
  schema tree and every configured exclusion list, the flattened map of a collection has an
  entry for a path exactly when some node of the tree has that dotted path and the path
  contains none of the configured substrings, and the map is the one obtained by testing every
  node of the tree by its own dotted path alone (\<open>kept_entries\<close>); the sub-fields of an
  excluded parent are dropped because their own paths contain the parent's path. With the
  list \<open>["__v"]\<close>, a field named \<open>__v\<close> has no entry wherever it sits, and a field named
  \<open>name\<close> has its entry whenever its own dotted path does not contain \<open>__v\<close>. This is stated
  for collections and trees in which no collection name and no dotted path is \<open>__proto__\<close>
  and every top-level field with sub-fields has a non-empty name.
\<close>

theorem C4_exclusion_per_path:
  assumes "prop_get (filteredFields opts) = Some filters"
    and "distinct (map fst schema)"
    and "(c, flds) \<in> set schema"
    and "c \<noteq> ''__proto__''"
    and "\<forall>field\<in>set flds. subFields field \<noteq> None \<longrightarrow> name field \<noteq> []"
    and "\<forall>pn\<in>set (tree_nodes flds []). fst pn \<noteq> ''__proto__''"
  shows "\<exists>flat m. flattenSchema opts schema = Inr flat \<and> map_of flat c = Some m \<and>
           (\<forall>p. p \<in> fst ` set m \<longleftrightarrow> p \<in> fst ` set (tree_nodes flds []) \<and> \<not> excluded filters p) \<and>
           map_of m = map_of (rev (kept_entries filters flds [])) \<and>
           (filters = [''__v''] \<longrightarrow>
              (\<forall>pn\<in>set (tree_nodes flds []).
                 (name (snd pn) = ''__v'' \<longrightarrow> fst pn \<notin> fst ` set m) \<and>
                 (name (snd pn) = ''name'' \<and> \<not> includes_str (fst pn) ''__v'' \<longrightarrow>
                    fst pn \<in> fst ` set m)))"
proof -
  let ?m = "flattenFields filters flds []"
  obtain flat where flat: "flattenSchema opts schema = Inr flat" "map_of flat c = Some ?m"
    using flattenSchema_lookup [OF assms(1-4)] by blast
  have keys: "\<forall>p. p \<in> fst ` set ?m \<longleftrightarrow>
      p \<in> fst ` set (tree_nodes flds []) \<and> \<not> excluded filters p"
    using keys_flattenFields [OF assms(5,6), of filters] by (simp add: keys_kept_entries)
  have vals: "map_of ?m = map_of (rev (kept_entries filters flds []))"
    using map_of_flattenFields [of "[]" flds filters] assms(5,6) by simp
  have v: "filters = [''__v''] \<longrightarrow>
              (\<forall>pn\<in>set (tree_nodes flds []).
                 (name (snd pn) = ''__v'' \<longrightarrow> fst pn \<notin> fst ` set ?m) \<and>
                 (name (snd pn) = ''name'' \<and> \<not> includes_str (fst pn) ''__v'' \<longrightarrow>
                    fst pn \<in> fst ` set ?m))"
  proof (intro impI ballI conjI)
    fix pn
    assume f: "filters = [''__v'']" and pn: "pn \<in> set (tree_nodes flds [])"
      and n: "name (snd pn) = ''__v''"
    from path_includes_name [OF pn] n have "excluded filters (fst pn)"
      by (simp add: excluded_def f)
    with keys show "fst pn \<notin> fst ` set ?m" by blast
  next
    fix pn
    assume f: "filters = [''__v'']" and pn: "pn \<in> set (tree_nodes flds [])"
      and n: "name (snd pn) = ''name'' \<and> \<not> includes_str (fst pn) ''__v''"
    then have "\<not> excluded filters (fst pn)" by (simp add: excluded_def)
    moreover from pn have "fst pn \<in> fst ` set (tree_nodes flds [])" by simp
    ultimately show "fst pn \<in> fst ` set ?m" using keys by blast
  qed
  from flat keys vals v show ?thesis by blast
qed

text \<open>
  The sibling \<open>name\<close> of a field \<open>__v\<close> is not kept regardless of where the pair sits: below
  a field \<open>x__v\<close> both dotted paths contain \<open>__v\<close>, and the flattened map is empty.
\<close>

theorem C4_excluded_ancestor_counterexample:
  "flattenSchema v_options [(''c'', nested_v_fields)] = Inr [(''c'', [])] \<and>
   tree_nodes nested_v_fields [] =
     [(''x__v'', FieldSchema ''x__v'' [''object'']
         (Some [FieldSchema ''__v'' [''number''] None, FieldSchema ''name'' [''string''] None])),
      (''x__v.__v'', FieldSchema ''__v'' [''number''] None),
      (''x__v.name'', FieldSchema ''name'' [''string''] None)]"
  by (simp add: flattenSchema_def v_options_def nested_v_fields_def flattenFields.simps
        tree_nodes_Nil tree_nodes_Cons obj_eval)

theorem C4_witness:
  "flattenSchema v_options [(''c'', v_fields)] =
     Inr [(''c'', [(''name'', ''string''), (''meta'', ''object''), (''meta.name'', ''string'')])] \<and>
   map fst (tree_nodes v_fields []) = [''__v'', ''name'', ''meta'', ''meta.__v'', ''meta.name''] \<and>
   (\<exists>flat m. flattenSchema v_options [(''c'', v_fields)] = Inr flat \<and> map_of flat ''c'' = Some m \<and>
      (\<forall>p. p \<in> fst ` set m \<longleftrightarrow>
         p \<in> fst ` set (tree_nodes v_fields []) \<and> \<not> excluded [''__v''] p) \<and>
      map_of m = map_of (rev (kept_entries [''__v''] v_fields [])) \<and>
      ''__v'' \<notin> fst ` set m \<and> ''meta.__v'' \<notin> fst ` set m \<and>
      ''name'' \<in> fst ` set m \<and> ''meta.name'' \<in> fst ` set m)"
proof -
  have h1: "prop_get (filteredFields v_options) = Some [''__v'']" by (simp add: v_options_def)
  have h2: "distinct (map fst [(''c'', v_fields)])" by simp
  have h3: "(''c'', v_fields) \<in> set [(''c'', v_fields)]" by simp
  have h4: "''c'' \<noteq> ''__proto__''" by simp
  have h5: "\<forall>field\<in>set v_fields. subFields field \<noteq> None \<longrightarrow> name field \<noteq> []"
    by (simp add: v_fields_def)
  have nodes: "tree_nodes v_fields [] =
     [(''__v'', FieldSchema ''__v'' [''number''] None),
      (''name'', FieldSchema ''name'' [''string''] None),
      (''meta'', FieldSchema ''meta'' [''object'']
        (Some [FieldSchema ''__v'' [''number''] None, FieldSchema ''name'' [''string''] None])),
      (''meta.__v'', FieldSchema ''__v'' [''number''] None),
      (''meta.name'', FieldSchema ''name'' [''string''] None)]"
    by (simp add: v_fields_def tree_nodes_Nil tree_nodes_Cons)
  have h6: "\<forall>pn\<in>set (tree_nodes v_fields []). fst pn \<noteq> ''__proto__''"
    by (simp add: nodes)
  have ev: "flattenSchema v_options [(''c'', v_fields)] =
     Inr [(''c'', [(''name'', ''string''), (''meta'', ''object''), (''meta.name'', ''string'')])]"
    by (simp add: flattenSchema_def v_options_def v_fields_def flattenFields.simps obj_eval)
  from C4_exclusion_per_path [OF h1 h2 h3 h4 h5 h6] obtain flat m where
    r: "flattenSchema v_options [(''c'', v_fields)] = Inr flat" "map_of flat ''c'' = Some m"
       "\<forall>p. p \<in> fst ` set m \<longleftrightarrow>
         p \<in> fst ` set (tree_nodes v_fields []) \<and> \<not> excluded [''__v''] p"
       "map_of m = map_of (rev (kept_entries [''__v''] v_fields []))"
       "[''__v''] = [''__v''] \<longrightarrow>
              (\<forall>pn\<in>set (tree_nodes v_fields []).
                 (name (snd pn) = ''__v'' \<longrightarrow> fst pn \<notin> fst ` set m) \<and>
                 (name (snd pn) = ''name'' \<and> \<not> includes_str (fst pn) ''__v'' \<longrightarrow>
                    fst pn \<in> fst ` set m))"
    by blast
  from r(5) have k: "''__v'' \<notin> fst ` set m \<and> ''meta.__v'' \<notin> fst ` set m \<and>
      ''name'' \<in> fst ` set m \<and> ''meta.name'' \<in> fst ` set m"
    by (simp add: nodes)
  from ev nodes r(1-4) k show ?thesis by (simp add: nodes)
qed

section \<open>Entries of the flattened map\<close>

text \<open>
  Claim C5, as amended. For a collection whose tree has no excluded path, the flattened map has
  an entry for the dotted path of every node (leaves and internal nodes alike) and for nothing
  else; it is a dictionary, so it has one entry per distinct dotted path, and the number of
  entries equals the node count of the tree exactly when the dotted paths of the nodes are
  pairwise distinct. The value at a path is the joined type list of the last node in traversal
  order that has this path: a later write overwrites an earlier one. This is stated for
  collections and trees in which no collection name and no dotted path is \<open>__proto__\<close> and
  every top-level field with sub-fields has a non-empty name.
\<close>

theorem C5_flatten_entries:
  assumes "prop_get (filteredFields opts) = Some filters"
    and "distinct (map fst schema)"
    and "(c, flds) \<in> set schema"
    and "c \<noteq> ''__proto__''"
    and "\<forall>field\<in>set flds. subFields field \<noteq> None \<longrightarrow> name field \<noteq> []"
    and "\<forall>pn\<in>set (tree_nodes flds []). fst pn \<noteq> ''__proto__''"
    and "\<forall>pn\<in>set (tree_nodes flds []). \<not> excluded filters (fst pn)"
  shows "\<exists>flat m. flattenSchema opts schema = Inr flat \<and> map_of flat c = Some m \<and>
           fst ` set m = fst ` set (tree_nodes flds []) \<and>
           length m = card (fst ` set (tree_nodes flds [])) \<and>
           (length m = length (tree_nodes flds []) \<longleftrightarrow> distinct (map fst (tree_nodes flds []))) \<and>
           map_of m =
             map_of (rev (map (\<lambda>pn. (fst pn, join (types (snd pn)))) (tree_nodes flds [])))"
proof -
  let ?m = "flattenFields filters flds []"
  have kept: "kept_entries filters flds [] =
      map (\<lambda>pn. (fst pn, join (types (snd pn)))) (tree_nodes flds [])"
    using assms(7) by (rule kept_entries_all)
  obtain flat where flat: "flattenSchema opts schema = Inr flat" "map_of flat c = Some ?m"
    using flattenSchema_lookup [OF assms(1-4)] by blast
  have keys: "fst ` set ?m = fst ` set (tree_nodes flds [])"
    using keys_flattenFields [OF assms(5,6), of filters] by (simp add: kept image_image)
  have "length ?m = length (map fst ?m)" by simp
  also have "\<dots> = card (set (map fst ?m))"
    using distinct_flattenFields [of filters flds "[]"] by (simp only: distinct_card)
  finally have len: "length ?m = card (fst ` set (tree_nodes flds []))"
    using keys by simp
  have dist: "length ?m = length (tree_nodes flds []) \<longleftrightarrow> distinct (map fst (tree_nodes flds []))"
  proof
    assume "length ?m = length (tree_nodes flds [])"
    with len have "card (set (map fst (tree_nodes flds []))) = length (map fst (tree_nodes flds []))"
      by simp
    then show "distinct (map fst (tree_nodes flds []))" by (rule card_distinct)
  next
    assume "distinct (map fst (tree_nodes flds []))"
    then have "card (set (map fst (tree_nodes flds []))) = length (map fst (tree_nodes flds []))"
      by (rule distinct_card)
    with len show "length ?m = length (tree_nodes flds [])" by simp
  qed
  have vals: "map_of ?m =
      map_of (rev (map (\<lambda>pn. (fst pn, join (types (snd pn)))) (tree_nodes flds [])))"
    using map_of_flattenFields [of "[]" flds filters] assms(5,6) by (simp add: kept)
  from flat keys len dist vals show ?thesis by blast
qed

text \<open>
  The count stated without the distinctness condition fails: two nodes that share the path
  \<open>a\<close> leave one entry.
\<close>

theorem C5_duplicate_path_counterexample:
  "flattenSchema (initial_heap defaultOptions) [(''c'', dup_fields)] = Inr [(''c'', [(''a'', ''number'')])] \<and>
   length (tree_nodes dup_fields []) = 2 \<and>
   \<not> excluded [''.buffer'', ''__v''] ''a'' \<and>
   map fst (tree_nodes dup_fields []) = [''a'', ''a'']"
  by (simp add: flattenSchema_def initial_heap_def dup_fields_def flattenFields.simps
        tree_nodes_Nil tree_nodes_Cons excluded_def obj_eval)

theorem C5_witness:
  "flattenSchema (initial_heap defaultOptions) [(''c'', uniq_fields)] =
     Inr [(''c'', [(''a'', ''string''), (''b'', ''object''), (''b.c'', ''number,string'')])] \<and>
   map fst (tree_nodes uniq_fields []) = [''a'', ''b'', ''b.c''] \<and>
   \<not> excluded [''.buffer'', ''__v''] ''a'' \<and> \<not> excluded [''.buffer'', ''__v''] ''b'' \<and>
   \<not> excluded [''.buffer'', ''__v''] ''b.c'' \<and>
   (\<exists>flat m. flattenSchema (initial_heap defaultOptions) [(''c'', uniq_fields)] = Inr flat \<and>
      map_of flat ''c'' = Some m \<and> fst ` set m = {''a'', ''b'', ''b.c''} \<and> length m = 3 \<and>
      map_of m ''b.c'' = Some ''number,string'')"
proof -
  have h1: "prop_get (filteredFields (initial_heap defaultOptions)) = Some [''.buffer'', ''__v'']"
    by (simp add: initial_heap_def)
  have h2: "distinct (map fst [(''c'', uniq_fields)])" by simp
  have h3: "(''c'', uniq_fields) \<in> set [(''c'', uniq_fields)]" by simp
  have h4: "''c'' \<noteq> ''__proto__''" by simp
  have h5: "\<forall>field\<in>set uniq_fields. subFields field \<noteq> None \<longrightarrow> name field \<noteq> []"
    by (simp add: uniq_fields_def)
  have nodes: "tree_nodes uniq_fields [] =
      [(''a'', FieldSchema ''a'' [''string''] None),
       (''b'', FieldSchema ''b'' [''object''] (Some [FieldSchema ''c'' [''number'', ''string''] None])),
       (''b.c'', FieldSchema ''c'' [''number'', ''string''] None)]"
    by (simp add: uniq_fields_def tree_nodes_Nil tree_nodes_Cons)
  have h6: "\<forall>pn\<in>set (tree_nodes uniq_fields []). fst pn \<noteq> ''__proto__''"
    by (simp add: nodes)
  have e1: "\<not> excluded [''.buffer'', ''__v''] ''a''" by (simp add: excluded_def)
  have e2: "\<not> excluded [''.buffer'', ''__v''] ''b''" by (simp add: excluded_def)
  have e3: "\<not> excluded [''.buffer'', ''__v''] ''b.c''" by (simp add: excluded_def)
  have h7: "\<forall>pn\<in>set (tree_nodes uniq_fields []). \<not> excluded [''.buffer'', ''__v''] (fst pn)"
    using e1 e2 e3 by (simp add: nodes)
  have ev: "flattenSchema (initial_heap defaultOptions) [(''c'', uniq_fields)] =
     Inr [(''c'', [(''a'', ''string''), (''b'', ''object''), (''b.c'', ''number,string'')])]"
    by (simp add: flattenSchema_def initial_heap_def uniq_fields_def flattenFields.simps obj_eval)
  from C5_flatten_entries [OF h1 h2 h3 h4 h5 h6 h7] obtain flat m where
    r: "flattenSchema (initial_heap defaultOptions) [(''c'', uniq_fields)] = Inr flat"
       "map_of flat ''c'' = Some m"
       "fst ` set m = fst ` set (tree_nodes uniq_fields [])"
       "length m = card (fst ` set (tree_nodes uniq_fields []))"
       "length m = length (tree_nodes uniq_fields []) \<longleftrightarrow> distinct (map fst (tree_nodes uniq_fields []))"
       "map_of m = map_of (rev (map (\<lambda>pn. (fst pn, join (types (snd pn)))) (tree_nodes uniq_fields [])))"
    by blast
  from r(3) have k: "fst ` set m = {''a'', ''b'', ''b.c''}" by (simp add: nodes)
  from r(5) have l: "length m = 3" by (simp add: nodes)
  from r(6) have v: "map_of m ''b.c'' = Some ''number,string''" by (simp add: nodes)
  have "\<exists>flat m. flattenSchema (initial_heap defaultOptions) [(''c'', uniq_fields)] = Inr flat \<and>
      map_of flat ''c'' = Some m \<and> fst ` set m = {''a'', ''b'', ''b.c''} \<and> length m = 3 \<and>
      map_of m ''b.c'' = Some ''number,string''"
    using r(1,2) k l v by blast
  with ev e1 e2 e3 show ?thesis by (simp add: nodes)
qed

section \<open>Presence of sub-fields\<close>

text \<open>
  Claim C6, as amended. Every node produced by the array-doc derivation, at every depth, and
  hence every node produced by sub-document sampling, carries the type tag of the value it was
  derived from and has sub-fields if and only if that value was classified as an object, or
  as an array whose first element was classified as an object or an array; its sub-fields are
  then the array-doc derivation of the value (of all elements, for an array) one level deeper.
  Every top-level node produced by \<open>getSchema\<close> has sub-fields if and only if its reported
  type is \<open>"object"\<close>: a top-level array is never expanded.
\<close>

theorem C6_subFields_presence:
  "getSchemaFromArrayDocs arrayDocs depth =
     concat (map (\<lambda>doc.
        map (\<lambda>entry. FieldSchema (fst entry) [getFieldType (snd entry)]
               (if expands (snd entry)
                then Some (getSchemaFromArrayDocs (sampled (snd entry)) (depth + 1))
                else None))
          (for_in doc)) arrayDocs) \<and>
   (aggregateSubDocs db c field = Inr subDocs \<longrightarrow>
      getSchemaFromSubDocs db c field depth =
        Inr (concat (map (\<lambda>subDoc. getSchemaFromArrayDocs [subDoc] depth) subDocs))) \<and>
   (aggregateTypes db c = Inr rows \<and> getSchema db c depth = Inr schema \<longrightarrow>
      list_all2 (\<lambda>row node. name node = row_id row \<and> types node = [reported_type row] \<and>
          (subFields node \<noteq> None \<longleftrightarrow> reported_type row = ''object'')) rows schema)"
proof (intro conjI impI)
  show "getSchemaFromArrayDocs arrayDocs depth =
     concat (map (\<lambda>doc.
        map (\<lambda>entry. FieldSchema (fst entry) [getFieldType (snd entry)]
               (if expands (snd entry)
                then Some (getSchemaFromArrayDocs (sampled (snd entry)) (depth + 1))
                else None))
          (for_in doc)) arrayDocs)"
    by (simp only: getSchemaFromArrayDocs_concat [of arrayDocs depth] getSubFields_expands)
next
  assume "aggregateSubDocs db c field = Inr subDocs"
  then show "getSchemaFromSubDocs db c field depth =
        Inr (concat (map (\<lambda>subDoc. getSchemaFromArrayDocs [subDoc] depth) subDocs))"
    by (rule getSchemaFromSubDocs_concat)
next
  assume "aggregateTypes db c = Inr rows \<and> getSchema db c depth = Inr schema"
  then have "list_all2 (top_level_node db c depth) rows schema"
    by (simp add: getSchema_nodes)
  then show "list_all2 (\<lambda>row node. name node = row_id row \<and> types node = [reported_type row] \<and>
          (subFields node \<noteq> None \<longleftrightarrow> reported_type row = ''object'')) rows schema"
    by (rule list_all2_mono) (auto simp: top_level_node_def split: if_splits)
qed

text \<open>
  The stated invariant fails at the top level: for the document \<open>{items: [{a:1}]}\<close> the field
  \<open>items\<close> is classified as an array whose first element is an object, and \<open>getSchema\<close>
  reports it without sub-fields, while the array-doc derivation of the same document expands
  it.
\<close>

theorem C6_top_level_array_counterexample:
  "for_in items_doc = [(''items'', JArray [JObject [(''a'', JNumber 1)]])] \<and>
   getFieldType (JArray [JObject [(''a'', JNumber 1)]]) = ''array'' \<and>
   getFieldType (JObject [(''a'', JNumber 1)]) = ''object'' \<and>
   getSchema (memory_store [(''c'', [items_doc])]) ''c'' 0 =
     Inr [FieldSchema ''items'' [''array''] None] \<and>
   getSchemaFromArrayDocs [items_doc] 1 =
     [FieldSchema ''items'' [''array''] (Some [FieldSchema ''a'' [''number''] None])]"
  by (simp add: items_schema)
     (simp add: items_doc_def getFieldType_def getSchemaFromArrayDocs.simps getSubFields.simps Let_def)

theorem C6_witness:
  "aggregateSubDocs (memory_store [(''c'', [shapes_doc])]) ''c'' ''owner'' =
     Inr [JObject [(''tags'', JArray [JArray [], JNumber 2]), (''ids'', JArray [JNumber 1]),
                   (''none'', JNull)]] \<and>
   aggregateTypes (memory_store [(''c'', [shapes_doc])]) ''c'' =
     Inr [TypeRow ''items'' ''array'' [], TypeRow ''owner'' ''object'' []] \<and>
   getSchema (memory_store [(''c'', [shapes_doc])]) ''c'' 0 =
     Inr [FieldSchema ''items'' [''array''] None,
          FieldSchema ''owner'' [''object'']
            (Some [FieldSchema ''tags'' [''array''] (Some []),
                   FieldSchema ''ids'' [''array''] None,
                   FieldSchema ''none'' [''object''] (Some [])])] \<and>
   getSchemaFromSubDocs (memory_store [(''c'', [shapes_doc])]) ''c'' ''owner'' 1 =
     Inr [FieldSchema ''tags'' [''array''] (Some []),
          FieldSchema ''ids'' [''array''] None,
          FieldSchema ''none'' [''object''] (Some [])] \<and>
   list_all2 (\<lambda>row node. name node = row_id row \<and> types node = [reported_type row] \<and>
       (subFields node \<noteq> None \<longleftrightarrow> reported_type row = ''object''))
     [TypeRow ''items'' ''array'' [], TypeRow ''owner'' ''object'' []]
     [FieldSchema ''items'' [''array''] None,
      FieldSchema ''owner'' [''object'']
        (Some [FieldSchema ''tags'' [''array''] (Some []),
               FieldSchema ''ids'' [''array''] None,
               FieldSchema ''none'' [''object''] (Some [])])]"
proof -
  let ?db = "memory_store [(''c'', [shapes_doc])]"
  let ?owner = "JObject [(''tags'', JArray [JArray [], JNumber 2]), (''ids'', JArray [JNumber 1]),
                   (''none'', JNull)]"
  note c6 = C6_subFields_presence [of "[?owner]" 1 ?db "''c''" "''owner''" "[?owner]"
      "[TypeRow ''items'' ''array'' [], TypeRow ''owner'' ''object'' []]"]
  from c6 shapes_subDocs
  have s: "getSchemaFromSubDocs ?db ''c'' ''owner'' 1 =
      Inr (concat (map (\<lambda>subDoc. getSchemaFromArrayDocs [subDoc] 1) [?owner]))" by blast
  then have s': "getSchemaFromSubDocs ?db ''c'' ''owner'' 1 =
     Inr [FieldSchema ''tags'' [''array''] (Some []),
          FieldSchema ''ids'' [''array''] None,
          FieldSchema ''none'' [''object''] (Some [])]"
    by (simp add: shapes_owner)
  note c6' = C6_subFields_presence [of "[?owner]" 0 ?db "''c''" "''owner''" "[?owner]"
      "[TypeRow ''items'' ''array'' [], TypeRow ''owner'' ''object'' []]"]
  from c6' shapes_rows shapes_schema
  have t: "list_all2 (\<lambda>row node. name node = row_id row \<and> types node = [reported_type row] \<and>
       (subFields node \<noteq> None \<longleftrightarrow> reported_type row = ''object''))
     [TypeRow ''items'' ''array'' [], TypeRow ''owner'' ''object'' []]
     [FieldSchema ''items'' [''array''] None,
      FieldSchema ''owner'' [''object'']
        (Some [FieldSchema ''tags'' [''array''] (Some []),
               FieldSchema ''ids'' [''array''] None,
               FieldSchema ''none'' [''object''] (Some [])])]" by blast
  from shapes_subDocs shapes_rows shapes_schema s' t show ?thesis by blast
qed

section \<open>Sub-document sampling\<close>

text \<open>
  Claim C7. \<open>getSchemaFromSubDocs\<close> does not de-duplicate: when the projection of the field
  succeeds, the result is the concatenation, in sampling order, of the field schemas derived
  from each qualifying sub-document on its own, so its field names are the keys of the first
  sub-document, then those of the second, and so on; if each of the \<open>N\<close> qualifying
  sub-documents is an object that has a field \<open>f\<close>, then \<open>f\<close> occurs exactly \<open>N\<close> times in
  the returned sequence.
\<close>

theorem C7_sub_documents_not_merged:
  assumes "aggregateSubDocs db c field = Inr subDocs"
  shows "getSchemaFromSubDocs db c field depth =
           Inr (concat (map (\<lambda>subDoc. getSchemaFromArrayDocs [subDoc] depth) subDocs)) \<and>
         (\<exists>schema. getSchemaFromSubDocs db c field depth = Inr schema \<and>
            map name schema = concat (map (\<lambda>subDoc. map fst (for_in subDoc)) subDocs) \<and>
            ((\<forall>subDoc\<in>set subDocs. \<exists>kvs. subDoc = JObject kvs \<and> distinct (map fst kvs) \<and>
                 f \<in> set (map fst kvs)) \<longrightarrow>
             length (filter (\<lambda>node. name node = f) schema) = length subDocs))"
proof -
  let ?schema = "concat (map (\<lambda>subDoc. getSchemaFromArrayDocs [subDoc] depth) subDocs)"
  have r: "getSchemaFromSubDocs db c field depth = Inr ?schema"
    using assms by (rule getSchemaFromSubDocs_concat)
  have n: "map name ?schema = concat (map (\<lambda>subDoc. map fst (for_in subDoc)) subDocs)"
    by (simp add: map_concat comp_def names_getSchemaFromArrayDocs)
  have "(\<forall>subDoc\<in>set subDocs. \<exists>kvs. subDoc = JObject kvs \<and> distinct (map fst kvs) \<and>
                 f \<in> set (map fst kvs)) \<longrightarrow>
             length (filter (\<lambda>node. name node = f) ?schema) = length subDocs"
    by (simp only: count_names n) (simp add: count_sub_documents)
  with r n show ?thesis by blast
qed

theorem C7_witness:
  "aggregateSubDocs profiles_store ''people'' ''profile'' =
     Inr [JObject [(''nick'', JString ''a''), (''age'', JNumber 1)],
          JObject [(''nick'', JString ''b'')],
          JObject [(''tags'', JArray []), (''nick'', JNumber 3)]] \<and>
   getSchemaFromSubDocs profiles_store ''people'' ''profile'' 1 =
     Inr [FieldSchema ''nick'' [''string''] None, FieldSchema ''age'' [''number''] None,
          FieldSchema ''nick'' [''string''] None,
          FieldSchema ''tags'' [''array''] None, FieldSchema ''nick'' [''number''] None] \<and>
   (\<exists>schema. getSchemaFromSubDocs profiles_store ''people'' ''profile'' 1 = Inr schema \<and>
      length (filter (\<lambda>node. name node = ''nick'') schema) = 3)"
proof -
  let ?subDocs = "[JObject [(''nick'', JString ''a''), (''age'', JNumber 1)],
          JObject [(''nick'', JString ''b'')],
          JObject [(''tags'', JArray []), (''nick'', JNumber 3)]]"
  have each: "\<forall>subDoc\<in>set ?subDocs. \<exists>kvs. subDoc = JObject kvs \<and> distinct (map fst kvs) \<and>
      ''nick'' \<in> set (map fst kvs)" by simp
  from C7_sub_documents_not_merged [OF profiles_subDocs, of 1 "''nick''"]
  obtain schema where s: "getSchemaFromSubDocs profiles_store ''people'' ''profile'' 1 =
        Inr (concat (map (\<lambda>subDoc. getSchemaFromArrayDocs [subDoc] 1) ?subDocs))"
    "getSchemaFromSubDocs profiles_store ''people'' ''profile'' 1 = Inr schema"
    "(\<forall>subDoc\<in>set ?subDocs. \<exists>kvs. subDoc = JObject kvs \<and> distinct (map fst kvs) \<and>
         ''nick'' \<in> set (map fst kvs)) \<longrightarrow>
       length (filter (\<lambda>node. name node = ''nick'') schema) = length ?subDocs"
    by blast
  from s(3) each have cnt: "length (filter (\<lambda>node. name node = ''nick'') schema) = 3" by simp
  from s(1) have ev: "getSchemaFromSubDocs profiles_store ''people'' ''profile'' 1 =
     Inr [FieldSchema ''nick'' [''string''] None, FieldSchema ''age'' [''number''] None,
          FieldSchema ''nick'' [''string''] None,
          FieldSchema ''tags'' [''array''] None, FieldSchema ''nick'' [''number''] None]"
    by (simp add: getSchemaFromArrayDocs.simps getSubFields.simps getFieldType_def Let_def)
  from profiles_subDocs ev s(2) cnt show ?thesis by blast
qed

section \<open>All-or-nothing failure\<close>

text \<open>
  Claim C8. \<open>generateSchemaForAllCollections\<close> fails fast and returns either an error or a
  schema, never a partial schema: if listing the collections fails, the call fails with that
  error; if discovery fails for a collection after it succeeded for all collections listed
  before it, the call fails with that collection's error and the schemas already computed are
  dropped; and a schema is returned only when the listing and the discovery of every listed
  collection succeeded.
\<close>

theorem C8_all_or_nothing:
  "(listCollections db = Inl e \<longrightarrow> generateSchemaForAllCollections db = Inl e) \<and>
   (listCollections db = Inr (pre @ c # post) \<and>
    (\<forall>p\<in>set pre. \<exists>flds. getSchema db p 0 = Inr flds) \<and> getSchema db c 0 = Inl e \<longrightarrow>
      generateSchemaForAllCollections db = Inl e) \<and>
   (generateSchemaForAllCollections db = Inr schema \<longrightarrow>
      (\<exists>collections. listCollections db = Inr collections \<and>
         (\<forall>c\<in>set collections. \<exists>flds. getSchema db c 0 = Inr flds)))"
proof (intro conjI impI)
  assume "listCollections db = Inl e"
  then show "generateSchemaForAllCollections db = Inl e"
    by (simp add: generateSchemaForAllCollections_def)
next
  assume "listCollections db = Inr (pre @ c # post) \<and>
    (\<forall>p\<in>set pre. \<exists>flds. getSchema db p 0 = Inr flds) \<and> getSchema db c 0 = Inl e"
  then show "generateSchemaForAllCollections db = Inl e"
    by (simp add: generateSchemaForAllCollections_def generate_collections_fails)
next
  assume "generateSchemaForAllCollections db = Inr schema"
  then show "\<exists>collections. listCollections db = Inr collections \<and>
         (\<forall>c\<in>set collections. \<exists>flds. getSchema db c 0 = Inr flds)"
    by (auto simp: generateSchemaForAllCollections_def split: sum.splits
          dest: generate_collections_Inr)
qed

theorem C8_witness:
  "listCollections unreachable_store = Inl (MongoError ''not connected'') \<and>
   generateSchemaForAllCollections unreachable_store = Inl (MongoError ''not connected'') \<and>
   listCollections failing_store = Inr ([''a''] @ ''b'' # [''c'']) \<and>
   getSchema failing_store ''a'' 0 = Inr [FieldSchema ''k'' [''string''] None] \<and>
   getSchema failing_store ''b'' 0 = Inl (MongoError ''cursor lost'') \<and>
   generateSchemaForAllCollections failing_store = Inl (MongoError ''cursor lost'') \<and>
   generateSchemaForAllCollections (memory_store [(''users'', [users_doc1, users_doc2])]) =
     Inr users_full_schema \<and>
   (\<exists>collections. listCollections (memory_store [(''users'', [users_doc1, users_doc2])]) =
       Inr collections \<and>
     (\<forall>c\<in>set collections.
        \<exists>flds. getSchema (memory_store [(''users'', [users_doc1, users_doc2])]) c 0 = Inr flds))"
proof -
  let ?db = "memory_store [(''users'', [users_doc1, users_doc2])]"
  have u: "listCollections unreachable_store = Inl (MongoError ''not connected'')"
    by (simp add: unreachable_store_def)
  have l: "listCollections failing_store = Inr ([''a''] @ ''b'' # [''c''])"
    by (simp add: failing_store_def)
  have a: "getSchema failing_store ''a'' 0 = Inr [FieldSchema ''k'' [''string''] None]"
    by (simp add: failing_store_def getSchema_def row_types_def Let_def)
  have b: "getSchema failing_store ''b'' 0 = Inl (MongoError ''cursor lost'')"
    by (simp add: failing_store_def getSchema_def)
  have pre: "\<forall>p\<in>set [''a'']. \<exists>flds. getSchema failing_store p 0 = Inr flds"
    using a by simp
  have g: "generateSchemaForAllCollections ?db = Inr users_full_schema"
    by (simp add: generateSchemaForAllCollections_def getSchema_def getSchemaFromSubDocs_def
          memory_store_def store_documents_def store_aggregateTypes_def store_aggregateSubDocs_def
          users_doc1_def users_doc2_def users_full_schema_def row_types_def Let_def
          getSchemaFromArrayDocs.simps getSubFields.simps getFieldType_def obj_eval)
  have r1: "generateSchemaForAllCollections unreachable_store = Inl (MongoError ''not connected'')"
    using C8_all_or_nothing [of unreachable_store "MongoError ''not connected''"] u by blast
  have r2: "generateSchemaForAllCollections failing_store = Inl (MongoError ''cursor lost'')"
    using C8_all_or_nothing [of failing_store "MongoError ''cursor lost''" "[''a'']" "''b''" "[''c'']"]
      l pre b by blast
  have r3: "\<exists>collections. listCollections ?db = Inr collections \<and>
     (\<forall>c\<in>set collections. \<exists>flds. getSchema ?db c 0 = Inr flds)"
    using C8_all_or_nothing [of ?db _ _ _ _ users_full_schema] g by blast
  from u l a b g r1 r2 r3 show ?thesis by blast
qed

section \<open>Totality of the flattener\<close>

text \<open>
  Claim C9. \<open>flattenSchema\<close> is pure and total: it returns a flattened schema for every
  well-formed full schema and never fails. The code fails on an instance obtained from
  \<open>connect\<close> with the options \<open>{filteredFields: undefined}\<close>: \<open>Object.assign\<close> writes the
  \<open>undefined\<close> over the default list, and \<open>flattenSchema\<close> then throws a \<open>TypeError\<close> at the
  first field of a full schema on which it succeeds with the default options.
\<close>

theorem C9_undefined_filter_throws:
  "connect initial_heap ok_client ''db'' (Some undefined_filter_options) =
     (Inr \<lparr> tool_database = memory_store [], tool_options = defaultOptions \<rparr>,
      initial_heap(defaultOptions := \<lparr> filteredFields = Own None,
                                        logger = Own (Some (Logger ''winston'')) \<rparr>)) \<and>
   flattenSchema
     (this_options
        (initial_heap(defaultOptions := \<lparr> filteredFields = Own None,
                                          logger = Own (Some (Logger ''winston'')) \<rparr>))
        \<lparr> tool_database = memory_store [], tool_options = defaultOptions \<rparr>)
     [(''c'', [FieldSchema ''a'' [''string''] None])] =
   Inl (TypeError ''Cannot read properties of undefined'') \<and>
   flattenSchema (initial_heap defaultOptions) [(''c'', [FieldSchema ''a'' [''string''] None])] =
   Inr [(''c'', [(''a'', ''string'')])]"
  by (simp add: connect_def ok_client_def undefined_filter_options_def assign_options_def
        initial_heap_def Let_def this_options_def flattenSchema_def flattenFields.simps obj_eval)

section \<open>The shared default options\<close>

text \<open>
  Claim C10. \<open>connect\<close> merges the caller's options into the shared default options object
  in place: after a call that passes options, whether or not the connection succeeds, the
  default options object holds every property the caller passed (\<open>filteredFields\<close>,
  \<open>logger\<close>), and a later call without options leaves the object as it is and returns an
  instance whose options are that object, so it works with the earlier caller's values and not
  with the documented defaults \<open>['.buffer', '__v']\<close>.
\<close>

theorem C10_connect_mutates_defaults:
  assumes "connect h client1 databaseName1 (Some custom) = (r1, h1)"
    and "connect h1 client2 databaseName2 None = (r2, h2)"
  shows "h1 defaultOptions = assign_options (h defaultOptions) (Some custom) \<and>
         (\<forall>v. filteredFields custom = Own v \<longrightarrow> filteredFields (h1 defaultOptions) = Own v) \<and>
         (\<forall>v. logger custom = Own v \<longrightarrow> logger (h1 defaultOptions) = Own v) \<and>
         h2 = h1 \<and>
         (\<forall>tool. r2 = Inr tool \<longrightarrow> this_options h2 tool = h1 defaultOptions)"
proof -
  from assms(1) have h1: "h1 = h(defaultOptions := assign_options (h defaultOptions) (Some custom))"
    by (auto simp: connect_def Let_def split: option.splits)
  from assms(2) have h2: "h2 = h1"
    by (auto simp: connect_def Let_def assign_options_def split: option.splits)
  from assms(2) have tool: "\<forall>tool. r2 = Inr tool \<longrightarrow> tool_options tool = defaultOptions"
    by (auto simp: connect_def Let_def split: option.splits)
  show ?thesis
    using h1 h2 tool by (auto simp: assign_options_def this_options_def)
qed

theorem C10_witness:
  "connect initial_heap ok_client ''db'' (Some custom_options) =
     (Inr \<lparr> tool_database = memory_store [], tool_options = defaultOptions \<rparr>,
      initial_heap(defaultOptions := \<lparr> filteredFields = Own (Some [''secret'']),
                                        logger = Own (Some (Logger ''winston'')) \<rparr>)) \<and>
   connect (initial_heap(defaultOptions := \<lparr> filteredFields = Own (Some [''secret'']),
                                        logger = Own (Some (Logger ''winston'')) \<rparr>))
       ok_client ''db'' None =
     (Inr \<lparr> tool_database = memory_store [], tool_options = defaultOptions \<rparr>,
      initial_heap(defaultOptions := \<lparr> filteredFields = Own (Some [''secret'']),
                                        logger = Own (Some (Logger ''winston'')) \<rparr>)) \<and>
   prop_get (filteredFields (initial_heap defaultOptions)) = Some [''.buffer'', ''__v''] \<and>
   prop_get (filteredFields
      (this_options (initial_heap(defaultOptions := \<lparr> filteredFields = Own (Some [''secret'']),
                                        logger = Own (Some (Logger ''winston'')) \<rparr>))
         \<lparr> tool_database = memory_store [], tool_options = defaultOptions \<rparr>)) = Some [''secret'']"
proof -
  let ?h1 = "initial_heap(defaultOptions := \<lparr> filteredFields = Own (Some [''secret'']),
                                        logger = Own (Some (Logger ''winston'')) \<rparr>)"
  let ?tool = "\<lparr> tool_database = memory_store [], tool_options = defaultOptions \<rparr>"
  have c1: "connect initial_heap ok_client ''db'' (Some custom_options) = (Inr ?tool, ?h1)"
    by (simp add: connect_def ok_client_def custom_options_def assign_options_def initial_heap_def Let_def)
  have c2: "connect ?h1 ok_client ''db'' None = (Inr ?tool, ?h1)"
    by (simp add: connect_def ok_client_def assign_options_def Let_def)
  have d: "prop_get (filteredFields (initial_heap defaultOptions)) = Some [''.buffer'', ''__v'']"
    by (simp add: initial_heap_def)
  from C10_connect_mutates_defaults [OF c1 c2]
  have "filteredFields custom_options = Own (Some [''secret'']) \<longrightarrow>
          filteredFields (?h1 defaultOptions) = Own (Some [''secret''])"
    and "this_options ?h1 ?tool = ?h1 defaultOptions" by blast+
  then have "prop_get (filteredFields (this_options ?h1 ?tool)) = Some [''secret'']"
    by (simp add: custom_options_def)
  with c1 c2 d show ?thesis by simp
qed

end
